theory Spec2Isabelle
  imports Complex_Main "HOL-Library.AList" "HOL-Library.Multiset"
begin

section \<open>Trench planning for a street network (trenches2.py)\<close>

text \<open>
  A shallow embedding of \<^verbatim>\<open>trenches2.py\<close>. Python floats are idealised as real numbers:
  \<^verbatim>\<open>math.sqrt\<close>, \<^verbatim>\<open>math.hypot\<close>, \<^verbatim>\<open>math.acos\<close>, \<^verbatim>\<open>math.cos\<close> and \<^verbatim>\<open>math.sin\<close> are the exact
  functions, and \<^verbatim>\<open>round(x, 7)\<close> is rounding to seven decimals with ties to even.
  Python's \<^verbatim>\<open>hash\<close> of a tuple of coordinates is idealised as injective, so a dictionary
  keyed by such a hash is keyed by the tuple itself. A Python \<^verbatim>\<open>set\<close> of corners is a list
  without two elements of equal coordinates; its iteration order is the order of the list.
  A raised exception is a value \<open>Inl e\<close>.
\<close>

datatype py_error =
  ZeroDivisionError | KeyError | IndexError | TypeError | UnboundLocalError | LinesDoNotIntersect

type_synonym point = "real \<times> real"

text \<open>\<^verbatim>\<open>str(sorted([u, v]))\<close>: the sorted pair of the two node ids.\<close>

type_synonym street_id = "int \<times> int"

definition street_segment_id_of :: "int \<Rightarrow> int \<Rightarrow> street_id" where
  "street_segment_id_of u v = (min u v, max u v)"

definition distance_from_center_of_road :: real where
  "distance_from_center_of_road = 1 / 10000"

subsection \<open>Geometric primitives\<close>

definition point_distance_from_line :: "point \<times> point \<Rightarrow> point \<Rightarrow> real" where
  "point_distance_from_line line p =
     ((fst p - fst (fst line)) * (snd (snd line) - snd (fst line)))
       - ((snd p - snd (fst line)) * (fst (snd line) - fst (fst line)))"

definition node_distance :: "point \<Rightarrow> point \<Rightarrow> real" where
  "node_distance node1 node2 =
     sqrt ((fst node2 - fst node1)\<^sup>2 + (snd node2 - snd node1)\<^sup>2)"

definition hypot :: "real \<Rightarrow> real \<Rightarrow> real" where
  "hypot a b = sqrt (a\<^sup>2 + b\<^sup>2)"

text \<open>\<^verbatim>\<open>angle\<close>: the float division raises \<^verbatim>\<open>ZeroDivisionError\<close> when a vector is zero.\<close>

definition angle :: "point \<Rightarrow> point \<Rightarrow> py_error + real" where
  "angle vector1 vector2 =
     (let x1 = fst vector1; y1 = snd vector1;
          x2 = fst vector2; y2 = snd vector2;
          inner_product = x1 * x2 + y1 * y2;
          len1 = hypot x1 y1;
          len2 = hypot x2 y2
      in if len1 * len2 = 0 then Inl ZeroDivisionError
         else if y2 < y1 then Inr (pi - arccos (inner_product / (len1 * len2)) + pi)
         else Inr (arccos (inner_product / (len1 * len2))))"

definition point_on_circle :: "point \<Rightarrow> real \<Rightarrow> real \<Rightarrow> point" where
  "point_on_circle center radius radian =
     (fst center + radius * cos radian, snd center + radius * sin radian)"

definition round_half_even :: "real \<Rightarrow> int" where
  "round_half_even r =
     (let f = \<lfloor>r\<rfloor>; t = r - of_int f
      in if t < 1 / 2 then f else if 1 / 2 < t then f + 1
         else if even f then f else f + 1)"

definition round7 :: "real \<Rightarrow> real" where
  "round7 r = of_int (round_half_even (r * 10000000)) / 10000000"

definition get_parallel_line_points :: "point \<Rightarrow> point \<Rightarrow> real \<Rightarrow> nat \<Rightarrow> point \<times> point" where
  "get_parallel_line_points u_node v_node vector_distance side_id =
     (let dx = fst u_node - fst v_node;
          dy = snd u_node - snd v_node;
          road_length0 = sqrt (dx\<^sup>2 + dy\<^sup>2);
          road_length = (if road_length0 = 0 then 1 / 100000 else road_length0);
          t = vector_distance / road_length;
          dx1 = (if side_id = 1 then - 1 * dy else dy);
          dy1 = (if side_id = 1 then dx else - 1 * dx);
          xu1 = fst u_node + dx1;
          yu1 = snd u_node + dy1;
          xu1t = round7 ((1 - t) * fst u_node + t * xu1);
          yu1t = round7 ((1 - t) * snd u_node + t * yu1);
          xv1 = fst v_node + dx1;
          yv1 = snd v_node + dy1;
          xv1t = round7 ((1 - t) * fst v_node + t * xv1);
          yv1t = round7 ((1 - t) * snd v_node + t * yv1)
      in ((xu1t, yu1t), (xv1t, yv1t)))"

definition det :: "point \<Rightarrow> point \<Rightarrow> real" where
  "det a b = fst a * snd b - snd a * fst b"

definition get_intersection_point :: "point \<times> point \<Rightarrow> point \<times> point \<Rightarrow> py_error + point" where
  "get_intersection_point line1 line2 =
     (let xdiff = (fst (fst line1) - fst (snd line1), fst (fst line2) - fst (snd line2));
          ydiff = (snd (fst line1) - snd (snd line1), snd (fst line2) - snd (snd line2));
          dv = det xdiff ydiff
      in if dv = 0 then Inl LinesDoNotIntersect
         else (let d = (det (fst line1) (snd line1), det (fst line2) (snd line2))
               in Inr (det d xdiff / dv, det d ydiff / dv)))"

text \<open>The determinant \<^verbatim>\<open>div\<close> of the two intersection computations.\<close>

definition miter_det :: "point \<times> point \<Rightarrow> point \<times> point \<Rightarrow> real" where
  "miter_det line1 line2 =
     det (fst (fst line1) - fst (snd line1), fst (fst line2) - fst (snd line2))
         (snd (fst line1) - snd (snd line1), snd (fst line2) - snd (snd line2))"

definition is_between :: "point \<Rightarrow> point \<Rightarrow> point \<Rightarrow> bool" where
  "is_between a b c =
     (let crossproduct = (snd c - snd a) * (fst b - fst a) - (fst c - fst a) * (snd b - snd a)
      in if \<bar>crossproduct\<bar> > 5 / 100000000 then False
         else (let dotproduct = (fst c - fst a) * (fst b - fst a) + (snd c - snd a) * (snd b - snd a)
               in if dotproduct < 0 then False
                  else (let squaredlengthba = (fst b - fst a) * (fst b - fst a)
                                               + (snd b - snd a) * (snd b - snd a)
                        in if dotproduct > squaredlengthba then False else True)))"

definition intersection_between_points :: "point \<times> point \<Rightarrow> point \<times> point \<Rightarrow> bool" where
  "intersection_between_points line1 line2 =
     (let xdiff = (fst (fst line1) - fst (snd line1), fst (fst line2) - fst (snd line2));
          ydiff = (snd (fst line1) - snd (snd line1), snd (fst line2) - snd (snd line2));
          dv = det xdiff ydiff
      in if dv = 0 then False
         else (let d = (det (fst line1) (snd line1), det (fst line2) (snd line2));
                   x = det d xdiff / dv;
                   y = det d ydiff / dv
               in if is_between (fst line1) (snd line1) (x, y) then True else False))"

subsection \<open>Trench corners\<close>

text \<open>
  \<^verbatim>\<open>TrenchCorner\<close> is a dictionary with the keys below; \<^verbatim>\<open>node_for_adding\<close> is set only
  once the corner has received its identifier. Equality and hash of a corner look at its
  coordinates only.
\<close>

record trench_corner =
  corner_x :: real
  corner_y :: real
  trench_count :: int
  corner_u :: int
  street_count :: int
  street_ids :: "street_id set"
  node_for_adding :: "int option"

definition xy :: "trench_corner \<Rightarrow> point" where
  "xy c = (corner_x c, corner_y c)"

definition TrenchCorner :: "real \<Rightarrow> real \<Rightarrow> int \<Rightarrow> int \<Rightarrow> street_id set \<Rightarrow> trench_corner" where
  "TrenchCorner x y tc u_node_id sids =
     \<lparr>corner_x = x, corner_y = y, trench_count = tc, corner_u = u_node_id,
      street_count = 1, street_ids = sids, node_for_adding = None\<rparr>"

definition corner_eq :: "trench_corner \<Rightarrow> trench_corner \<Rightarrow> bool" where
  "corner_eq a b = (corner_x a = corner_x b \<and> corner_y a = corner_y b)"

text \<open>\<^verbatim>\<open>node in s\<close> and \<^verbatim>\<open>s.add(node)\<close> for a set of corners.\<close>

definition corner_in :: "trench_corner \<Rightarrow> trench_corner list \<Rightarrow> bool" where
  "corner_in node s = list_ex (corner_eq node) s"

definition set_add :: "trench_corner \<Rightarrow> trench_corner list \<Rightarrow> trench_corner list" where
  "set_add node s = (if corner_in node s then s else s @ [node])"

subsection \<open>Candidate resolver\<close>

text \<open>
  A trench candidate is a two-element list of corners that the resolver invalidates by
  setting both elements to \<^verbatim>\<open>None\<close>; the same list object is held by \<^verbatim>\<open>new_pp\<close> and by
  \<^verbatim>\<open>point_edges\<close>. The model keeps the candidates in \<^verbatim>\<open>new_pp\<close> (a candidate is \<open>None\<close>
  once invalidated) and lets \<^verbatim>\<open>point_edges\<close> hold their positions in \<^verbatim>\<open>new_pp\<close>.
\<close>

type_synonym trench_candidate = "(trench_corner \<times> trench_corner) option"

type_synonym candidate_hash = "real \<times> real \<times> real \<times> real"

type_synonym point_edges_t = "(street_id \<times> (candidate_hash \<times> nat list \<times> nat list) list) list"





definition corner_at :: "real \<Rightarrow> real \<Rightarrow> int \<Rightarrow> int \<Rightarrow> trench_corner" where
  "corner_at x y u_node_id n = (TrenchCorner x y 2 u_node_id {(1, 2)})\<lparr>node_for_adding := Some n\<rparr>"

subsection \<open>Curved streets: the mitered parallel polyline\<close>

text \<open>
  The two nearest-corner loops of \<^verbatim>\<open>get_trench_linestring\<close>: the first corner whose
  distance to the point is below every distance seen before, starting from 10000000.
\<close>

fun closest_loop ::
  "point \<Rightarrow> trench_corner option \<Rightarrow> real \<Rightarrow> trench_corner list \<Rightarrow> trench_corner option" where
  "closest_loop p closest shortest_distance [] = closest"
| "closest_loop p closest shortest_distance (corner # cs) =
     (let current_distance = node_distance (xy corner) p
      in if current_distance < shortest_distance
         then closest_loop p (Some corner) current_distance cs
         else closest_loop p closest shortest_distance cs)"

record walk_state =
  linestring :: "point list"
  total_road_length :: real
  last_road_point :: "point option"
  last_trench_point :: "point option"
  last_line :: "(point \<times> point) option"
  closest_u_for_trench :: "trench_corner option"

definition walk_init :: walk_state where
  "walk_init = \<lparr>linestring = [], total_road_length = 0, last_road_point = None,
                 last_trench_point = None, last_line = None, closest_u_for_trench = None\<rparr>"

text \<open>The end of the loop body, common to both branches: \<open>new_u\<close> is also \<^verbatim>\<open>(x, y)\<close>.\<close>

definition walk_advance :: "walk_state \<Rightarrow> point \<Rightarrow> point \<Rightarrow> walk_state" where
  "walk_advance st new_u new_v =
     st\<lparr>linestring := linestring st @ [new_u],
        last_line := Some (new_u, new_v),
        total_road_length := total_road_length st
           + sqrt ((fst new_u - fst new_v)\<^sup>2 + (snd new_u - snd new_v)\<^sup>2),
        last_trench_point := Some new_v\<rparr>"

definition walk_step ::
  "trench_corner list \<Rightarrow> real \<Rightarrow> nat \<Rightarrow> walk_state \<Rightarrow> point \<Rightarrow> py_error + walk_state" where
  "walk_step u_side_corners road_offset side_id st sub =
     (case last_road_point st of
        None \<Rightarrow> Inr (st\<lparr>last_road_point := Some sub\<rparr>)
      | Some lrp \<Rightarrow>
          (let offs = get_parallel_line_points lrp sub road_offset side_id;
               new_u_node = fst offs; new_v_node = snd offs
           in case last_line st of
                Some ll \<Rightarrow>
                  (case get_intersection_point ll (new_u_node, new_v_node) of
                     Inl e \<Rightarrow> Inl e
                   | Inr p \<Rightarrow>
                       Inr ((walk_advance st (round7 (fst p), round7 (snd p)) new_v_node)
                              \<lparr>last_road_point := Some sub\<rparr>))
              | None \<Rightarrow>
                  (case closest_loop new_u_node None 10000000 u_side_corners of
                     None \<Rightarrow> Inl TypeError
                   | Some c \<Rightarrow>
                       Inr ((walk_advance (st\<lparr>closest_u_for_trench := Some c\<rparr>) (xy c) new_v_node)
                              \<lparr>last_road_point := Some sub\<rparr>))))"

fun walk ::
  "trench_corner list \<Rightarrow> real \<Rightarrow> nat \<Rightarrow> walk_state \<Rightarrow> point list \<Rightarrow> py_error + walk_state" where
  "walk u_side_corners road_offset side_id st [] = Inr st"
| "walk u_side_corners road_offset side_id st (sub # coords) =
     (case walk_step u_side_corners road_offset side_id st sub of
        Inl e \<Rightarrow> Inl e
      | Inr st' \<Rightarrow> walk u_side_corners road_offset side_id st' coords)"

record curved_trench =
  u_for_edge :: trench_corner
  v_for_edge :: trench_corner
  trench_geometry :: "point list"
  trench_length :: real
  trench_name :: string

text \<open>
  The final snap measures the distance to \<^verbatim>\<open>(last_trench_point[0], last_trench_point[0])\<close>,
  as the source does.
\<close>

definition get_trench_linestring ::
  "trench_corner list \<Rightarrow> trench_corner list \<Rightarrow> point list \<Rightarrow> real \<Rightarrow> nat
     \<Rightarrow> py_error + curved_trench" where
  "get_trench_linestring u_side_corners v_side_corners coords road_offset side_id =
     (case walk u_side_corners road_offset side_id walk_init coords of
        Inl e \<Rightarrow> Inl e
      | Inr st \<Rightarrow>
          (case (if v_side_corners = [] then Inr None
                 else (case last_trench_point st of
                         None \<Rightarrow> Inl TypeError
                       | Some ltp \<Rightarrow>
                           Inr (closest_loop (fst ltp, fst ltp) None 10000000 v_side_corners))) of
             Inl e \<Rightarrow> Inl e
           | Inr None \<Rightarrow> Inl TypeError
           | Inr (Some closest_v) \<Rightarrow>
               (case closest_u_for_trench st of
                  None \<Rightarrow> Inl UnboundLocalError
                | Some closest_u \<Rightarrow>
                    Inr \<lparr>u_for_edge = closest_u, v_for_edge = closest_v,
                         trench_geometry = linestring st @ [xy closest_v],
                         trench_length = total_road_length st,
                         trench_name = ''Curved Road''\<rparr>)))"

subsection \<open>Straight streets: the candidate loop\<close>

fun combinations2 :: "'a list \<Rightarrow> ('a \<times> 'a) list" where
  "combinations2 [] = []"
| "combinations2 (a # as) = map (Pair a) as @ combinations2 as"

definition candidate_hash_of :: "trench_corner \<Rightarrow> trench_corner \<Rightarrow> candidate_hash" where
  "candidate_hash_of c0 c1 =
     (min (corner_x c0) (corner_x c1), max (corner_x c0) (corner_x c1),
      min (corner_y c0) (corner_y c1), max (corner_y c0) (corner_y c1))"

record edge_state =
  added_trenches :: "candidate_hash list"
  point_edges :: point_edges_t
  new_pp :: "trench_candidate list"

text \<open>
  \<^verbatim>\<open>point_edges[street_segment_id][trench_candidate_hash][side_id].append(trench_candidate)\<close>,
  after the two entries have been created where they were missing; \<open>a\<close> is the position
  of the candidate in \<^verbatim>\<open>new_pp\<close>.
\<close>

definition point_edges_append ::
  "street_id \<Rightarrow> candidate_hash \<Rightarrow> nat \<Rightarrow> nat \<Rightarrow> point_edges_t \<Rightarrow> point_edges_t" where
  "point_edges_append sid h side_id a pe =
     (let streets = (case map_of pe sid of None \<Rightarrow> [] | Some s \<Rightarrow> s);
          sides = (case map_of streets h of None \<Rightarrow> ([], []) | Some s \<Rightarrow> s);
          sides' = (if side_id = 0 then (fst sides @ [a], snd sides)
                    else (fst sides, snd sides @ [a]))
      in AList.update sid (AList.update h sides' streets) pe)"

definition consider_pair ::
  "street_id \<Rightarrow> point \<Rightarrow> point \<Rightarrow> nat \<Rightarrow> trench_corner \<times> trench_corner \<Rightarrow> edge_state
     \<Rightarrow> edge_state" where
  "consider_pair sid u_node v_node side_id point_pair1 es =
     (if corner_u (fst point_pair1) \<noteq> corner_u (snd point_pair1)
      then (let h = candidate_hash_of (fst point_pair1) (snd point_pair1)
            in if \<not> intersection_between_points (u_node, v_node)
                       (xy (fst point_pair1), xy (snd point_pair1))
                  \<and> h \<notin> set (added_trenches es)
               then es\<lparr>added_trenches := added_trenches es @ [h],
                       point_edges := point_edges_append sid h side_id (length (new_pp es))
                                        (point_edges es),
                       new_pp := new_pp es @ [Some point_pair1]\<rparr>
               else es)
      else es)"

definition street_sides_of :: "point \<times> point \<Rightarrow> trench_corner list \<Rightarrow> trench_corner list list" where
  "street_sides_of line cs =
     [filter (\<lambda>c. \<not> point_distance_from_line line (xy c) > 0) cs,
      filter (\<lambda>c. point_distance_from_line line (xy c) > 0) cs]"

text \<open>
  One pass of the edge loop for a street without \<^verbatim>\<open>geometry\<close>; \<^verbatim>\<open>added_trenches\<close> starts
  empty for every edge.
\<close>

definition straight_street ::
  "int \<Rightarrow> int \<Rightarrow> point \<Rightarrow> point \<Rightarrow> trench_corner list
     \<Rightarrow> point_edges_t \<times> trench_candidate list \<Rightarrow> point_edges_t \<times> trench_candidate list" where
  "straight_street u v u_node v_node corners st =
     (let sid = street_segment_id_of u v;
          filtered_corners = filter (\<lambda>c. corner_u c = u \<or> corner_u c = v) corners;
          street_sides = street_sides_of (u_node, v_node) filtered_corners;
          es = fold (\<lambda>side_id es.
                       fold (consider_pair sid u_node v_node side_id)
                            (combinations2 (street_sides ! side_id)) es)
                    [0, 1]
                    \<lparr>added_trenches = [], point_edges = fst st, new_pp = snd st\<rparr>
      in (point_edges es, new_pp es))"

text \<open>
  "The line of a candidate crosses the street segment": the line through the two points
  of \<open>line\<close> is not parallel to the segment \<open>seg\<close> and meets it in one of its points.
\<close>

definition crosses_segment :: "point \<times> point \<Rightarrow> point \<times> point \<Rightarrow> bool" where
  "crosses_segment seg line =
     (miter_det seg line \<noteq> 0
      \<and> (\<exists>t. 0 \<le> t \<and> t \<le> 1
             \<and> point_distance_from_line line
                   (fst (fst seg) + t * (fst (snd seg) - fst (fst seg)),
                    snd (fst seg) + t * (snd (snd seg) - snd (fst seg))) = 0))"


text \<open>
  One pass of the edge loop for a street with \<^verbatim>\<open>geometry\<close>. A side without a corner at
  one end only prints a message.
\<close>

definition nth_err :: "'a list \<Rightarrow> int \<Rightarrow> py_error + 'a" where
  "nth_err l i =
     (let n = int (length l); j = (if i < 0 then n + i else i)
      in if 0 \<le> j \<and> j < n then Inr (l ! nat j) else Inl IndexError)"

definition curved_sides ::
  "int \<Rightarrow> int \<Rightarrow> point \<Rightarrow> point \<Rightarrow> trench_corner list \<Rightarrow> point list
     \<Rightarrow> py_error + (trench_corner list list \<times> trench_corner list list)" where
  "curved_sides u v u_node v_node corners curved_line =
     (let u_filtered_corners = filter (\<lambda>c. corner_u c = u) corners;
          v_filtered_corners = filter (\<lambda>c. corner_u c = v) corners
      in case nth_err curved_line 0 of Inl e \<Rightarrow> Inl e | Inr c0 \<Rightarrow>
         (case nth_err curved_line 1 of Inl e \<Rightarrow> Inl e | Inr c1 \<Rightarrow>
         (case nth_err curved_line (- 2) of Inl e \<Rightarrow> Inl e | Inr cm2 \<Rightarrow>
            (let first_segment = (if c0 = u_node then (u_node, c1) else (u_node, cm2));
                 last_segment = (if c0 = u_node then (cm2, v_node) else (c1, v_node))
             in Inr (street_sides_of first_segment u_filtered_corners,
                     street_sides_of last_segment v_filtered_corners)))))"

fun curved_side_loop ::
  "trench_corner list list \<Rightarrow> trench_corner list list \<Rightarrow> point list \<Rightarrow> nat list
     \<Rightarrow> curved_trench list \<Rightarrow> py_error + curved_trench list" where
  "curved_side_loop us vs coords [] new_curved_pp = Inr new_curved_pp"
| "curved_side_loop us vs coords (side_id # ids) new_curved_pp =
     (if length (us ! side_id) > 0 \<and> length (vs ! side_id) > 0
      then (case get_trench_linestring (us ! side_id) (vs ! side_id) coords
                   distance_from_center_of_road side_id of
              Inl e \<Rightarrow> Inl e
            | Inr ct \<Rightarrow> curved_side_loop us vs coords ids (new_curved_pp @ [ct]))
      else curved_side_loop us vs coords ids new_curved_pp)"

definition curved_street ::
  "int \<Rightarrow> int \<Rightarrow> point \<Rightarrow> point \<Rightarrow> trench_corner list \<Rightarrow> point list
     \<Rightarrow> curved_trench list \<Rightarrow> py_error + curved_trench list" where
  "curved_street u v u_node v_node corners curved_line new_curved_pp =
     (case curved_sides u v u_node v_node corners curved_line of
        Inl e \<Rightarrow> Inl e
      | Inr sides \<Rightarrow> curved_side_loop (fst sides) (snd sides) curved_line [0, 1] new_curved_pp)"

subsection \<open>Merging the trenches into the graph\<close>













subsection \<open>Corner synthesis\<close>

text \<open>
  The road graph: the nodes with their coordinates in the order of \<^verbatim>\<open>network.nodes\<close>,
  \<^verbatim>\<open>network.neighbors(u)\<close>, and the \<^verbatim>\<open>geometry\<close> of \<^verbatim>\<open>network.get_edge_data(u, v)[0]\<close>
  where it has one.
\<close>

record network =
  net_nodes :: "(int \<times> point) list"
  net_neighbors :: "int \<Rightarrow> int list"
  net_geometry :: "int \<Rightarrow> int \<Rightarrow> point list option"

definition bind_err :: "py_error + 'a \<Rightarrow> ('a \<Rightarrow> py_error + 'b) \<Rightarrow> py_error + 'b" where
  "bind_err m f = (case m of Inl e \<Rightarrow> Inl e | Inr a \<Rightarrow> f a)"

text \<open>Dictionaries keep the order of insertion: association lists.\<close>

definition dict_get :: "('k \<times> 'v) list \<Rightarrow> 'k \<Rightarrow> py_error + 'v" where
  "dict_get d k = (case map_of d k of None \<Rightarrow> Inl KeyError | Some v \<Rightarrow> Inr v)"

definition dict_setdefault :: "'k \<Rightarrow> 'v \<Rightarrow> ('k \<times> 'v) list \<Rightarrow> ('k \<times> 'v) list" where
  "dict_setdefault k v d = (case map_of d k of None \<Rightarrow> d @ [(k, v)] | Some w \<Rightarrow> d)"

record synth_state =
  node_id :: int
  output_trench_corners :: "(street_id \<times> trench_corner list) list"
  output_road_crossing :: "(street_id \<times> (int \<times> int) list) list"
  nodes :: "(point \<times> trench_corner) list"

record corner_locals =
  first_radian :: "real option"
  first_street_id :: "street_id option"
  last_radian :: "real option"
  last_street_id :: "street_id option"
  last_node_id :: "int option"
  first_node_id :: "int option"
  street_segment_id :: "street_id option"

definition locals_init :: corner_locals where
  "locals_init = \<lparr>first_radian = None, first_street_id = None, last_radian = None,
                   last_street_id = None, last_node_id = None, first_node_id = None,
                   street_segment_id = None\<rparr>"

definition neighbor_radian :: "network \<Rightarrow> point \<Rightarrow> int \<Rightarrow> int \<Rightarrow> py_error + real" where
  "neighbor_radian nw current_node u v =
     bind_err (dict_get (net_nodes nw) v) (\<lambda>neighbor.
       case net_geometry nw u v of
         None \<Rightarrow> angle (1, 0) (fst neighbor - fst current_node, snd neighbor - snd current_node)
       | Some l \<Rightarrow>
           bind_err (nth_err l 0) (\<lambda>l0.
             bind_err (if l0 = current_node then nth_err l 1 else nth_err l (- 2)) (\<lambda>v1.
               angle (1, 0) (fst v1 - fst current_node, snd v1 - snd current_node))))"

fun neighbors_loop ::
  "network \<Rightarrow> point \<Rightarrow> int \<Rightarrow> int list \<Rightarrow> (real \<times> int) list \<Rightarrow> py_error + (real \<times> int) list" where
  "neighbors_loop nw current_node u [] neighbors = Inr neighbors"
| "neighbors_loop nw current_node u (v # vs) neighbors =
     bind_err (neighbor_radian nw current_node u v) (\<lambda>radian.
       neighbors_loop nw current_node u vs (AList.update radian v neighbors))"

text \<open>
  \<^verbatim>\<open>node not in output_trench_corners[first_street_id] and
  node not in output_trench_corners[last_street_id]\<close>
\<close>

definition corner_is_new ::
  "(street_id \<times> trench_corner list) list \<Rightarrow> street_id option \<Rightarrow> street_id option
     \<Rightarrow> trench_corner \<Rightarrow> py_error + bool" where
  "corner_is_new otc first_sid last_sid node =
     (case first_sid of None \<Rightarrow> Inl KeyError | Some fs \<Rightarrow>
        bind_err (dict_get otc fs) (\<lambda>b1.
          if corner_in node b1 then Inr False
          else (case last_sid of None \<Rightarrow> Inl KeyError | Some ls \<Rightarrow>
                  bind_err (dict_get otc ls) (\<lambda>b2. Inr (\<not> corner_in node b2)))))"

definition bucket_add ::
  "street_id \<Rightarrow> trench_corner \<Rightarrow> (street_id \<times> trench_corner list) list
     \<Rightarrow> py_error + (street_id \<times> trench_corner list) list" where
  "bucket_add sid node otc =
     bind_err (dict_get otc sid) (\<lambda>b. Inr (AList.update sid (set_add node b) otc))"

text \<open>
  \<^verbatim>\<open>if sid not in output_road_crossing: output_road_crossing[sid] = list()\<close> followed by
  the \<^verbatim>\<open>append\<close>.
\<close>

definition crossing_append ::
  "street_id \<Rightarrow> int \<times> int \<Rightarrow> (street_id \<times> (int \<times> int) list) list
     \<Rightarrow> (street_id \<times> (int \<times> int) list) list" where
  "crossing_append sid c orc =
     AList.update sid ((case map_of orc sid of None \<Rightarrow> [] | Some l \<Rightarrow> l) @ [c]) orc"

text \<open>
  The corner between two vectors inside the loop: a new corner takes the next
  identifier, an equal corner found in one of the two buckets makes \<^verbatim>\<open>node_id\<close> the
  identifier stored under the corner's hash in \<^verbatim>\<open>nodes\<close>.
\<close>

definition place_corner ::
  "synth_state \<Rightarrow> corner_locals \<Rightarrow> street_id \<Rightarrow> street_id \<Rightarrow> trench_corner
     \<Rightarrow> py_error + synth_state" where
  "place_corner st loc sid ls node =
     bind_err (corner_is_new (output_trench_corners st) (first_street_id loc) (Some ls) node)
       (\<lambda>is_new.
          if is_new
          then (let nid = node_id st + 1;
                    node' = node\<lparr>node_for_adding := Some nid\<rparr>
                in bind_err (bucket_add sid node' (output_trench_corners st)) (\<lambda>o1.
                   bind_err (bucket_add ls node' o1) (\<lambda>o2.
                     Inr (st\<lparr>node_id := nid, output_trench_corners := o2,
                             nodes := AList.update (xy node') node' (nodes st)\<rparr>))))
          else bind_err (dict_get (nodes st) (xy node)) (\<lambda>old.
                 case node_for_adding old of
                   None \<Rightarrow> Inl KeyError
                 | Some i \<Rightarrow> Inr (st\<lparr>node_id := i\<rparr>)))"

definition corner_step ::
  "int \<Rightarrow> point \<Rightarrow> (real \<times> int) list \<Rightarrow> synth_state \<times> corner_locals \<Rightarrow> real
     \<Rightarrow> py_error + synth_state \<times> corner_locals" where
  "corner_step u current_node neighbors sl radian =
     (let st = fst sl; loc = snd sl
      in bind_err (dict_get neighbors radian) (\<lambda>v.
           let sid = street_segment_id_of u v;
               st1 = st\<lparr>output_trench_corners :=
                         dict_setdefault sid [] (output_trench_corners st)\<rparr>
           in case last_radian loc of
                None \<Rightarrow>
                  Inr (st1, loc\<lparr>first_radian := Some radian, first_street_id := Some sid,
                                street_segment_id := Some sid,
                                last_radian := Some radian, last_street_id := Some sid\<rparr>)
              | Some lr \<Rightarrow>
                  (case last_street_id loc of
                     None \<Rightarrow> Inl KeyError
                   | Some ls \<Rightarrow>
                       (let between_radian = radian - \<bar>radian - lr\<bar> / 2;
                            p = point_on_circle current_node distance_from_center_of_road
                                  between_radian;
                            node = TrenchCorner (fst p) (snd p) 2 u {sid, ls}
                        in bind_err (place_corner st1 loc sid ls node) (\<lambda>st2.
                             Inr ((case last_node_id loc of
                                     Some lnid \<Rightarrow>
                                       st2\<lparr>output_road_crossing :=
                                             crossing_append ls (lnid, node_id st2)
                                               (output_road_crossing st2)\<rparr>
                                   | None \<Rightarrow> st2),
                                  (case last_node_id loc of
                                     Some lnid \<Rightarrow> loc
                                   | None \<Rightarrow> loc\<lparr>first_node_id := Some (node_id st2)\<rparr>)
                                    \<lparr>last_node_id := Some (node_id st2),
                                     street_segment_id := Some sid,
                                     last_radian := Some radian,
                                     last_street_id := Some sid\<rparr>))))))"

fun corner_loop ::
  "int \<Rightarrow> point \<Rightarrow> (real \<times> int) list \<Rightarrow> synth_state \<times> corner_locals \<Rightarrow> real list
     \<Rightarrow> py_error + synth_state \<times> corner_locals" where
  "corner_loop u current_node neighbors sl [] = Inr sl"
| "corner_loop u current_node neighbors sl (radian # rs) =
     bind_err (corner_step u current_node neighbors sl radian)
       (\<lambda>sl'. corner_loop u current_node neighbors sl' rs)"

text \<open>The corner between the last vector and the first one, for two vectors or more.\<close>

definition wrap_around :: "int \<Rightarrow> point \<Rightarrow> synth_state \<times> corner_locals \<Rightarrow> py_error + synth_state" where
  "wrap_around u current_node sl =
     (let st = fst sl; loc = snd sl
      in case first_radian loc of None \<Rightarrow> Inl TypeError | Some fr0 \<Rightarrow>
         (case last_radian loc of None \<Rightarrow> Inl TypeError | Some lr \<Rightarrow>
         (case first_street_id loc of None \<Rightarrow> Inl KeyError | Some fs \<Rightarrow>
         (case last_street_id loc of None \<Rightarrow> Inl KeyError | Some ls \<Rightarrow>
            (let fr = fr0 + 2 * pi;
                 between_radian = fr - \<bar>fr - lr\<bar> / 2;
                 p = point_on_circle current_node distance_from_center_of_road between_radian;
                 node = TrenchCorner (fst p) (snd p) 2 u {fs, ls}
             in bind_err (corner_is_new (output_trench_corners st) (Some fs) (Some ls) node)
                  (\<lambda>is_new.
                     if is_new
                     then (let nid = node_id st + 1;
                               node' = node\<lparr>node_for_adding := Some nid\<rparr>
                           in bind_err (bucket_add fs node' (output_trench_corners st)) (\<lambda>o1.
                              bind_err (bucket_add ls node' o1) (\<lambda>o2.
                                case last_node_id loc of None \<Rightarrow> Inl TypeError | Some lnid \<Rightarrow>
                                (case first_node_id loc of None \<Rightarrow> Inl TypeError | Some fnid \<Rightarrow>
                                   Inr (st\<lparr>node_id := nid, output_trench_corners := o2,
                                           output_road_crossing :=
                                             crossing_append fs (nid, fnid)
                                               (crossing_append ls (lnid, nid)
                                                  (output_road_crossing st))\<rparr>)))))
                     else Inr st))))))"

text \<open>
  One of the two corners of a dead end, at \<open>first_radian + offset\<close>; the result also
  carries the corner, whose \<^verbatim>\<open>node_for_adding\<close> is set only when the corner is new.
\<close>

definition dead_end_corner ::
  "int \<Rightarrow> point \<Rightarrow> corner_locals \<Rightarrow> real \<Rightarrow> synth_state \<Rightarrow> py_error + synth_state \<times> trench_corner" where
  "dead_end_corner u current_node loc offset st =
     (case first_radian loc of None \<Rightarrow> Inl TypeError | Some fr \<Rightarrow>
        (let between_radian = fr + offset;
             p = point_on_circle current_node distance_from_center_of_road between_radian;
             node = TrenchCorner (fst p) (snd p) 2 u
                      (case street_segment_id loc of None \<Rightarrow> {} | Some sid \<Rightarrow> {sid})
         in bind_err (corner_is_new (output_trench_corners st) (first_street_id loc)
                        (last_street_id loc) node)
              (\<lambda>is_new.
                 if is_new
                 then (case first_street_id loc of None \<Rightarrow> Inl KeyError | Some fs \<Rightarrow>
                         (let nid = node_id st + 1;
                              node' = node\<lparr>node_for_adding := Some nid\<rparr>
                          in bind_err (bucket_add fs node' (output_trench_corners st)) (\<lambda>o1.
                               Inr (st\<lparr>node_id := nid, output_trench_corners := o1,
                                       output_road_crossing :=
                                         dict_setdefault fs [] (output_road_crossing st)\<rparr>,
                                    node'))))
                 else Inr (st, node))))"

definition dead_end :: "int \<Rightarrow> point \<Rightarrow> synth_state \<times> corner_locals \<Rightarrow> py_error + synth_state" where
  "dead_end u current_node sl =
     (let st = fst sl; loc = snd sl
      in bind_err (dead_end_corner u current_node loc (pi * (1 / 2)) st) (\<lambda>r1.
         bind_err (dead_end_corner u current_node loc (pi * (3 / 2)) (fst r1)) (\<lambda>r2.
           case first_street_id loc of None \<Rightarrow> Inl KeyError | Some fs \<Rightarrow>
             bind_err (dict_get (output_road_crossing (fst r2)) fs) (\<lambda>l.
               case node_for_adding (snd r1) of None \<Rightarrow> Inl KeyError | Some n1 \<Rightarrow>
               (case node_for_adding (snd r2) of None \<Rightarrow> Inl KeyError | Some n2 \<Rightarrow>
                  Inr ((fst r2)\<lparr>output_road_crossing :=
                                   AList.update fs (l @ [(n1, n2)])
                                     (output_road_crossing (fst r2))\<rparr>))))))"

text \<open>The body of the loop over the intersections.\<close>

definition process_intersection :: "network \<Rightarrow> synth_state \<Rightarrow> int \<times> point \<Rightarrow> py_error + synth_state" where
  "process_intersection nw st un =
     (let u = fst un; current_node = snd un
      in bind_err (neighbors_loop nw current_node u (net_neighbors nw u) []) (\<lambda>neighbors.
           let sorted_vs = sort (map fst neighbors)
           in bind_err (corner_loop u current_node neighbors (st, locals_init) sorted_vs)
                (\<lambda>sl. if length sorted_vs > 1 then wrap_around u current_node sl
                      else if length sorted_vs = 1 then dead_end u current_node sl
                      else Inr (fst sl))))"

fun intersections_loop :: "network \<Rightarrow> synth_state \<Rightarrow> (int \<times> point) list \<Rightarrow> py_error + synth_state" where
  "intersections_loop nw st [] = Inr st"
| "intersections_loop nw st (un # rest) =
     bind_err (process_intersection nw st un) (\<lambda>st'. intersections_loop nw st' rest)"

definition synth_init :: synth_state where
  "synth_init = \<lparr>node_id = 400000000, output_trench_corners = [], output_road_crossing = [],
                  nodes = []\<rparr>"

definition get_trench_corners :: "network \<Rightarrow> py_error + synth_state" where
  "get_trench_corners nw = intersections_loop nw synth_init (net_nodes nw)"

subsection \<open>Two small road graphs\<close>



subsection \<open>The corners and the crossing edges of one intersection\<close>

text \<open>
  The corners stored in all the buckets of \<^verbatim>\<open>output_trench_corners\<close> and the crossing
  edges stored for all the streets in \<^verbatim>\<open>output_road_crossing\<close>, and the crossing edges
  that the loop over the sorted angles has appended after \<open>m\<close> corners when the first
  identifier is \<open>k + 1\<close>.
\<close>

definition all_corners :: "(street_id \<times> trench_corner list) list \<Rightarrow> trench_corner list" where
  "all_corners otc = concat (map snd otc)"

definition all_crossings :: "(street_id \<times> (int \<times> int) list) list \<Rightarrow> (int \<times> int) list" where
  "all_crossings orc = concat (map snd orc)"

definition cycle_edges :: "int \<Rightarrow> nat \<Rightarrow> (int \<times> int) list" where
  "cycle_edges k m = map (\<lambda>j. (k + int j, k + int j + 1)) [1..<m]"

text \<open>
  The invariant of the loop over the sorted angles of one intersection at \<open>cur\<close>, after
  the first angle \<open>r1\<close> and \<open>m\<close> further angles, the last of them \<open>lr\<close>: \<open>S0\<close> and \<open>X0\<close> are
  the corners and the crossing edges stored before the intersection, \<open>k\<close> is the value
  of \<^verbatim>\<open>node_id\<close> before it. The corners added so far lie on the circle around \<open>cur\<close> at
  angles strictly between \<open>r1\<close> and \<open>lr\<close>.
\<close>

definition new_corners :: "point \<Rightarrow> int \<Rightarrow> real \<Rightarrow> real \<Rightarrow> nat \<Rightarrow> trench_corner set" where
  "new_corners cur k lo hi m =
     {c. \<exists>\<beta> j. lo < \<beta> \<and> \<beta> < hi
           \<and> xy c = point_on_circle cur distance_from_center_of_road \<beta>
           \<and> 1 \<le> j \<and> j \<le> m \<and> node_for_adding c = Some (k + int j)}"

definition synth_inv ::
  "point \<Rightarrow> int \<Rightarrow> trench_corner set \<Rightarrow> (int \<times> int) multiset \<Rightarrow> real \<Rightarrow> real \<Rightarrow> nat
     \<Rightarrow> synth_state \<times> corner_locals \<Rightarrow> bool" where
  "synth_inv cur k S0 X0 r1 lr m sl =
     (first_radian (snd sl) = Some r1 \<and> last_radian (snd sl) = Some lr \<and> r1 \<le> lr
      \<and> (\<exists>fs ls. first_street_id (snd sl) = Some fs \<and> last_street_id (snd sl) = Some ls
             \<and> map_of (output_trench_corners (fst sl)) fs \<noteq> None
             \<and> map_of (output_trench_corners (fst sl)) ls \<noteq> None
             \<and> (m = 0 \<longrightarrow> ls = fs \<and> street_segment_id (snd sl) = Some fs))
      \<and> node_id (fst sl) = k + int m
      \<and> last_node_id (snd sl) = (if m = 0 then None else Some (k + int m))
      \<and> first_node_id (snd sl) = (if m = 0 then None else Some (k + 1))
      \<and> mset (all_crossings (output_road_crossing (fst sl))) = X0 + mset (cycle_edges k m)
      \<and> set (all_corners (output_trench_corners (fst sl))) \<subseteq> S0 \<union> new_corners cur k r1 lr m
      \<and> (\<forall>j. 1 \<le> j \<and> j \<le> m \<longrightarrow>
            (\<exists>c \<in> set (all_corners (output_trench_corners (fst sl))).
               node_distance (xy c) cur = distance_from_center_of_road
               \<and> node_for_adding c = Some (k + int j)))
      \<and> card (set (all_corners (output_trench_corners (fst sl))) - S0) \<le> m)"

text \<open>
  A road graph in which two of the three streets of intersection 1 leave it in the same
  direction: 1 at (0, 0), its neighbours 2 at (1, 1), 3 at (2, 2) and 4 at (-1, 1).
\<close>

definition net_same_dir :: network where
  "net_same_dir = \<lparr>net_nodes = [(1, (0, 0)), (2, (1, 1)), (3, (2, 2)), (4, (- 1, 1))],
                   net_neighbors = (\<lambda>u. if u = 1 then [2, 3, 4] else []),
                   net_geometry = (\<lambda>u v. None)\<rparr>"

section \<open>Properties\<close>

subsection \<open>Candidate resolver\<close>


subsection \<open>Curved streets\<close>

lemma sqrt_less_pos_iff: "0 < y \<Longrightarrow> sqrt x < y \<longleftrightarrow> x < y\<^sup>2"
  by (metis abs_of_pos real_sqrt_abs real_sqrt_less_iff)

lemma get_intersection_point_parallel:
  "miter_det l1 l2 = 0 \<Longrightarrow> get_intersection_point l1 l2 = Inl LinesDoNotIntersect"
  by (simp add: get_intersection_point_def miter_det_def)

lemma walk_append:
  "walk U d s st (xs @ ys) =
     (case walk U d s st xs of Inl e \<Rightarrow> Inl e | Inr st' \<Rightarrow> walk U d s st' ys)"
  by (induction xs arbitrary: st) (auto split: sum.splits)

lemma walk_step_parallel:
  assumes "last_road_point st = Some q" and "last_line st = Some l"
    and "miter_det l (get_parallel_line_points q p d s) = 0"
  shows "walk_step U d s st p = Inl LinesDoNotIntersect"
  using assms by (simp add: walk_step_def Let_def get_intersection_point_parallel)

lemma gpl_east:
  "get_parallel_line_points (0, 0) (1, 0) (1 / 10000) 0 = ((0, 1 / 10000), (1, 1 / 10000))"
  "get_parallel_line_points (1, 0) (2, 0) (1 / 10000) 0 = ((1, 1 / 10000), (2, 1 / 10000))"
  by (simp_all add: get_parallel_line_points_def round7_def round_half_even_def)

lemma gpl_north:
  "get_parallel_line_points (0, 0) (0, 1) (1 / 10000) 0 = ((- (1 / 10000), 0), (- (1 / 10000), 1))"
  by (simp add: get_parallel_line_points_def round7_def round_half_even_def)

lemma walk_east:
  "walk [corner_at 0 (1 / 10000) 1 400000001] (1 / 10000) 0 walk_init [(0, 0), (1, 0)]
     = Inr \<lparr>linestring = [(0, 1 / 10000)], total_road_length = 1,
            last_road_point = Some (1, 0), last_trench_point = Some (1, 1 / 10000),
            last_line = Some ((0, 1 / 10000), (1, 1 / 10000)),
            closest_u_for_trench = Some (corner_at 0 (1 / 10000) 1 400000001)\<rparr>"
  by (simp add: walk_step_def walk_init_def walk_advance_def gpl_east node_distance_def xy_def
      corner_at_def TrenchCorner_def Let_def)

text \<open>
  C2, as stated, fails: the street through (0,0), (1,0), (2,0) has two collinear
  sub-segments, their offsets are parallel, and the construction of its trench ends with
  the exception of \<^verbatim>\<open>get_intersection_point\<close>; no corner is snapped to instead.
\<close>

theorem collinear_street_raises:
  "get_trench_linestring [corner_at 0 (1 / 10000) 1 400000001]
       [corner_at 2 (1 / 10000) 2 400000002] [(0, 0), (1, 0), (2, 0)] (1 / 10000) 0
     = Inl LinesDoNotIntersect"
  by (simp add: get_trench_linestring_def walk_step_def walk_init_def walk_advance_def gpl_east
      node_distance_def xy_def corner_at_def TrenchCorner_def Let_def
      get_intersection_point_def det_def)

text \<open>
  C2, amended. Whenever the walk along a curved street has come through a prefix of the
  vertices without an exception and the offset of the next sub-segment is parallel to the
  last trench line (the determinant of the miter computation is zero),
  \<^verbatim>\<open>get_trench_linestring\<close> raises the exception "lines do not intersect" to its caller:
  there is no local recovery.
\<close>

theorem parallel_offsets_raise:
  assumes "walk U d s walk_init pre = Inr st"
    and "last_road_point st = Some q" and "last_line st = Some l"
    and "miter_det l (get_parallel_line_points q p d s) = 0"
  shows "get_trench_linestring U V (pre @ p # rest) d s = Inl LinesDoNotIntersect"
  using assms by (simp add: get_trench_linestring_def walk_append walk_step_parallel)

theorem parallel_offsets_raise_witness:
  "walk [corner_at 0 (1 / 10000) 1 400000001] (1 / 10000) 0 walk_init [(0, 0), (1, 0)]
     = Inr \<lparr>linestring = [(0, 1 / 10000)], total_road_length = 1,
            last_road_point = Some (1, 0), last_trench_point = Some (1, 1 / 10000),
            last_line = Some ((0, 1 / 10000), (1, 1 / 10000)),
            closest_u_for_trench = Some (corner_at 0 (1 / 10000) 1 400000001)\<rparr>
   \<and> miter_det ((0, 1 / 10000), (1, 1 / 10000))
        (get_parallel_line_points (1, 0) (2, 0) (1 / 10000) 0) = 0
   \<and> get_trench_linestring [corner_at 0 (1 / 10000) 1 400000001]
        [corner_at 2 (1 / 10000) 2 400000002] ([(0, 0), (1, 0)] @ (2, 0) # []) (1 / 10000) 0
        = Inl LinesDoNotIntersect"
proof -
  have d: "miter_det ((0, 1 / 10000), (1, 1 / 10000))
        (get_parallel_line_points (1, 0) (2, 0) (1 / 10000) 0) = 0"
    by (simp add: gpl_east miter_det_def det_def)
  show ?thesis
    using parallel_offsets_raise[OF walk_east _ _ d,
          where V = "[corner_at 2 (1 / 10000) 2 400000002]" and rest = "[]"]
      walk_east d by simp
qed

text \<open>
  C5. The first point of the polyline is the nearest corner at \<open>u\<close>, but the last one
  is not the corner nearest to the final offset point: the final loop measures the
  distance to \<^verbatim>\<open>(last_trench_point[0], last_trench_point[0])\<close>. For the street from (0,0)
  to (0,1) on side 0 the final offset point is (-0.0001, 1); of the two corners at \<open>v\<close>,
  (-0.0001, 1) lies on it, and the polyline ends at the other one, (0, 0.9999).
\<close>

theorem final_snap_misses_nearest_corner:
  "map_sum id last_trench_point
       (walk [corner_at (- (1 / 10000)) 0 1 400000001] (1 / 10000) 0 walk_init [(0, 0), (0, 1)])
     = Inr (Some (- (1 / 10000), 1))
   \<and> node_distance (xy (corner_at (- (1 / 10000)) 1 2 400000003)) (- (1 / 10000), 1)
       < node_distance (xy (corner_at 0 (9999 / 10000) 2 400000004)) (- (1 / 10000), 1)
   \<and> map_sum id (\<lambda>ct. (v_for_edge ct, last (trench_geometry ct)))
       (get_trench_linestring [corner_at (- (1 / 10000)) 0 1 400000001]
          [corner_at (- (1 / 10000)) 1 2 400000003, corner_at 0 (9999 / 10000) 2 400000004]
          [(0, 0), (0, 1)] (1 / 10000) 0)
     = Inr (corner_at 0 (9999 / 10000) 2 400000004, (0, 9999 / 10000))"
  by (simp add: get_trench_linestring_def walk_step_def walk_init_def walk_advance_def gpl_north
      node_distance_def xy_def corner_at_def TrenchCorner_def Let_def sqrt_less_pos_iff
      power2_eq_square)

subsection \<open>The angle function\<close>

lemma hypot_pos: "(x, y) \<noteq> (0, 0) \<Longrightarrow> 0 < hypot x y"
  by (auto simp: hypot_def intro!: real_sqrt_gt_zero sum_power2_gt_zero_iff[THEN iffD2])

lemma hypot_axis: "0 < a \<Longrightarrow> hypot a 0 = a"
  by (simp add: hypot_def)

lemma angle_x_axis_eq:
  assumes "0 < a" and "(x2, y2) \<noteq> (0, 0)"
  shows "angle (a, 0) (x2, y2) =
           Inr (if y2 < 0 then pi - arccos (x2 / hypot x2 y2) + pi
                else arccos (x2 / hypot x2 y2))"
proof -
  have L: "0 < hypot x2 y2" using assms(2) by (rule hypot_pos)
  then show ?thesis using assms(1) by (simp add: angle_def Let_def hypot_axis)
qed

lemma cos_ratio_bounds:
  assumes "(x2, y2) \<noteq> (0, 0)"
  shows "\<bar>x2 / hypot x2 y2\<bar> \<le> 1"
proof -
  have L: "0 < hypot x2 y2" using assms by (rule hypot_pos)
  have "sqrt (x2\<^sup>2) \<le> sqrt (x2\<^sup>2 + y2\<^sup>2)" by (simp only: real_sqrt_le_iff) simp
  then have "\<bar>x2\<bar> \<le> hypot x2 y2" by (simp add: hypot_def)
  then show ?thesis using L by simp
qed

lemma sin_arccos_ratio:
  assumes "(x2, y2) \<noteq> (0, 0)"
  shows "sin (arccos (x2 / hypot x2 y2)) = \<bar>y2\<bar> / hypot x2 y2"
proof -
  have L: "0 < hypot x2 y2" using assms by (rule hypot_pos)
  have L2: "(hypot x2 y2)\<^sup>2 = x2\<^sup>2 + y2\<^sup>2" by (simp add: hypot_def)
  have P: "0 < x2\<^sup>2 + y2\<^sup>2" using L L2 by (metis zero_less_power)
  have "1 - (x2 / hypot x2 y2)\<^sup>2 = (y2 / hypot x2 y2)\<^sup>2"
  proof -
    have "x2\<^sup>2 / (x2\<^sup>2 + y2\<^sup>2) + y2\<^sup>2 / (x2\<^sup>2 + y2\<^sup>2)
            = (x2\<^sup>2 + y2\<^sup>2) / (x2\<^sup>2 + y2\<^sup>2)"
      by (simp only: add_divide_distrib)
    also have "\<dots> = 1" by (rule divide_self) (use P in linarith)
    finally have "x2\<^sup>2 / (x2\<^sup>2 + y2\<^sup>2) + y2\<^sup>2 / (x2\<^sup>2 + y2\<^sup>2) = 1" .
    then show ?thesis unfolding power_divide L2 by linarith
  qed
  then have "sqrt (1 - (x2 / hypot x2 y2)\<^sup>2) = \<bar>y2 / hypot x2 y2\<bar>" by simp
  then show ?thesis using sin_arccos_abs[OF cos_ratio_bounds[OF assms]] L by simp
qed

lemma ratio_strict:
  assumes "y2 \<noteq> 0"
  shows "\<bar>x2 / hypot x2 y2\<bar> < 1"
proof -
  have L: "0 < hypot x2 y2" using assms by (intro hypot_pos) simp
  have "x2\<^sup>2 < x2\<^sup>2 + y2\<^sup>2" using assms by simp
  then have "sqrt (x2\<^sup>2) < sqrt (x2\<^sup>2 + y2\<^sup>2)" by (simp only: real_sqrt_less_iff)
  then have "\<bar>x2\<bar> < hypot x2 y2" by (simp add: hypot_def)
  then show ?thesis using L by simp
qed

lemma angle_x_axis_polar:
  assumes "0 < a" and "(x2, y2) \<noteq> (0, 0)"
  shows "\<exists>\<theta>. angle (a, 0) (x2, y2) = Inr \<theta> \<and> 0 \<le> \<theta> \<and> \<theta> < 2 * pi
           \<and> x2 = hypot x2 y2 * cos \<theta> \<and> y2 = hypot x2 y2 * sin \<theta>
           \<and> \<theta> = (if y2 < 0 then pi - arccos (x2 / hypot x2 y2) + pi
                    else arccos (x2 / hypot x2 y2))"
proof -
  let ?c = "x2 / hypot x2 y2"
  have L: "0 < hypot x2 y2" using assms(2) by (rule hypot_pos)
  have b: "\<bar>?c\<bar> \<le> 1" using assms(2) by (rule cos_ratio_bounds)
  have cc: "cos (arccos ?c) = ?c" using b by (intro cos_arccos_abs)
  have ss: "sin (arccos ?c) = \<bar>y2\<bar> / hypot x2 y2" using assms(2) by (rule sin_arccos_ratio)
  show ?thesis
  proof (cases "y2 < 0")
    case True
    then have "\<bar>?c\<bar> < 1" by (intro ratio_strict) simp
    then have "- 1 < ?c" "?c < 1" by (simp_all only: abs_less_iff) linarith+
    then have "0 < arccos ?c" "arccos ?c < pi"
      using arccos_lt_bounded[of ?c] by simp_all
    moreover have "cos (pi - arccos ?c + pi) = ?c" 
      using cc by (simp add: cos_diff cos_add algebra_simps)
    moreover have "sin (pi - arccos ?c + pi) = y2 / hypot x2 y2"
      using ss True by (simp add: sin_diff sin_add algebra_simps)
    ultimately show ?thesis
      using True L angle_x_axis_eq[OF assms] by (intro exI[of _ "pi - arccos ?c + pi"]) simp
  next
    case False
    have "- 1 \<le> ?c" "?c \<le> 1" using b by (simp_all only: abs_le_iff) linarith+
    then have "0 \<le> arccos ?c" "arccos ?c \<le> pi" using arccos_bounded[of ?c] by simp_all
    moreover have "arccos ?c < 2 * pi" using \<open>arccos ?c \<le> pi\<close> pi_gt_zero by linarith
    moreover have "sin (arccos ?c) = y2 / hypot x2 y2" using ss False by simp
    ultimately show ?thesis
      using False L cc angle_x_axis_eq[OF assms]
      by (intro exI[of _ "arccos ?c"]) simp
  qed
qed




subsection \<open>Merging the trenches into the graph\<close>
















subsection \<open>Straight streets\<close>

lemma intersection_point_on_segment_line:
  fixes px py qx qy ax ay bx "by" :: real
  defines "D \<equiv> (px - qx) * (ay - by) - (ax - bx) * (py - qy)"
  defines "g0 \<equiv> (px - ax) * (by - ay) - (py - ay) * (bx - ax)"
  defines "x \<equiv> ((px * qy - py * qx) * (ax - bx) - (ax * by - ay * bx) * (px - qx)) / D"
  defines "y \<equiv> ((px * qy - py * qx) * (ay - by) - (ax * by - ay * bx) * (py - qy)) / D"
  assumes "D \<noteq> 0"
  shows "x - px = (- g0 / D) * (qx - px)" and "y - py = (- g0 / D) * (qy - py)"
  using assms(5) unfolding x_def y_def g0_def
  by (simp_all add: field_simps D_def) 

lemma intersection_between_points_iff:
  "intersection_between_points (p, q) (a, b) \<longleftrightarrow> crosses_segment (p, q) (a, b)"
proof -
  obtain px py qx qy ax ay bx "by" where
    [simp]: "p = (px, py)" "q = (qx, qy)" "a = (ax, ay)" "b = (bx, by)"
    by (metis surj_pair)
  define D where "D = (px - qx) * (ay - by) - (ax - bx) * (py - qy)"
  define g0 where "g0 = (px - ax) * (by - ay) - (py - ay) * (bx - ax)"
  define x where "x = ((px * qy - py * qx) * (ax - bx) - (ax * by - ay * bx) * (px - qx)) / D"
  define y where "y = ((px * qy - py * qx) * (ay - by) - (ax * by - ay * bx) * (py - qy)) / D"
  define S where "S = (qx - px) * (qx - px) + (qy - py) * (qy - py)"
  define ts where "ts = - g0 / D"
  have md: "miter_det (p, q) (a, b) = D"
    by (simp add: miter_det_def det_def D_def algebra_simps)
  have line: "point_distance_from_line ((ax, ay), (bx, by))
                  (px + t * (qx - px), py + t * (qy - py))
                = g0 + t * D" for t
    by (simp add: point_distance_from_line_def g0_def D_def algebra_simps)
  show ?thesis
  proof (cases "D = 0")
    case True
    then show ?thesis
      using md by (simp add: intersection_between_points_def crosses_segment_def
          miter_det_def Let_def)
  next
    case False
    have xs: "x - px = ts * (qx - px)" and ys: "y - py = ts * (qy - py)"
      using intersection_point_on_segment_line[of px qx ay "by" ax bx py qy] False
      unfolding x_def y_def ts_def g0_def D_def by simp_all
    have Spos: "0 < S"
    proof -
      have "qx - px \<noteq> 0 \<or> qy - py \<noteq> 0" using False by (auto simp: D_def)
      then have "0 < (qx - px)\<^sup>2 + (qy - py)\<^sup>2" by (simp add: sum_power2_gt_zero_iff)
      then show ?thesis by (simp add: S_def power2_eq_square)
    qed
    have cross: "(y - py) * (qx - px) - (x - px) * (qy - py) = 0"
      by (simp add: xs ys)
    have dot: "(x - px) * (qx - px) + (y - py) * (qy - py) = ts * S"
      by (simp add: xs ys S_def algebra_simps)
    have ib: "is_between (px, py) (qx, qy) (x, y) \<longleftrightarrow> 0 \<le> ts \<and> ts \<le> 1"
    proof -
      have "is_between (px, py) (qx, qy) (x, y) \<longleftrightarrow> \<not> ts * S < 0 \<and> \<not> ts * S > S"
        using cross dot by (simp add: is_between_def Let_def S_def)
      also have "\<dots> \<longleftrightarrow> 0 \<le> ts \<and> ts \<le> 1"
        using Spos by (simp add: not_less zero_le_mult_iff mult_le_cancel_right1)
      finally show ?thesis .
    qed
    have code: "intersection_between_points (p, q) (a, b) \<longleftrightarrow> is_between (px, py) (qx, qy) (x, y)"
      using False md
      by (simp add: intersection_between_points_def miter_det_def Let_def det_def x_def y_def D_def)
    have root: "g0 + t * D = 0 \<longleftrightarrow> t = ts" for t
    proof -
      have "g0 + t * D = 0 \<longleftrightarrow> t * D = - g0" by linarith
      also have "\<dots> \<longleftrightarrow> t = - g0 / D" using False by (simp add: field_simps)
      finally show ?thesis by (simp add: ts_def)
    qed
    have "crosses_segment (p, q) (a, b) \<longleftrightarrow> (\<exists>t. 0 \<le> t \<and> t \<le> 1 \<and> g0 + t * D = 0)"
      using False md by (simp add: crosses_segment_def line)
    also have "\<dots> \<longleftrightarrow> 0 \<le> ts \<and> ts \<le> 1"
      by (auto simp: root)
    finally show ?thesis using code ib by simp
  qed
qed







subsection \<open>A street of two points on the straight and on the curved path\<close>

lemma two_point_linestring:
  assumes "node_distance (xy cu) (fst (get_parallel_line_points un vn d s)) < 10000000"
    and "node_distance (xy cv) (fst (snd (get_parallel_line_points un vn d s)),
                                 fst (snd (get_parallel_line_points un vn d s))) < 10000000"
  shows "\<exists>t. get_trench_linestring [cu] [cv] [un, vn] d s = Inr t
           \<and> u_for_edge t = cu \<and> v_for_edge t = cv \<and> trench_geometry t = [xy cu, xy cv]"
  using assms
  by (simp add: get_trench_linestring_def walk_step_def walk_init_def walk_advance_def Let_def)

lemma mset_pair_cases: "mset xs = {#a, b#} \<Longrightarrow> xs = [a, b] \<or> xs = [b, a]"
proof -
  assume m: "mset xs = {#a, b#}"
  then have "length xs = 2" by (metis size_mset size_add_mset size_empty numeral_2_eq_2)
  then obtain x y where xs: "xs = [x, y]"
    by (metis (no_types) length_0_conv length_Suc_conv numeral_2_eq_2)
  with m have "{#x, y#} = {#a, b#}" by simp
  then show ?thesis unfolding xs by (auto simp: add_eq_conv_ex)
qed

lemma mset_single_cases: "mset xs = {#a#} \<Longrightarrow> xs = [a]"
  by (metis mset_single_iff_right)

lemma mset_filter_of: "mset xs = M \<Longrightarrow> mset (filter P xs) = filter_mset P M"
  by simp

lemma filter_single:
  "mset xs = {#a, b#} \<Longrightarrow> P a \<Longrightarrow> \<not> P b \<Longrightarrow> filter P xs = [a]"
  "mset xs = {#a, b#} \<Longrightarrow> \<not> P a \<Longrightarrow> P b \<Longrightarrow> filter P xs = [b]"
  by (rule mset_single_cases, simp only: mset_filter_of[of xs "{#a, b#}"], simp)+

lemma crosses_segment_swap:
  "crosses_segment seg (b, a) \<longleftrightarrow> crosses_segment seg (a, b)"
proof -
  have m: "miter_det seg (b, a) = - miter_det seg (a, b)"
    by (simp add: miter_det_def det_def algebra_simps)
  have p: "point_distance_from_line (b, a) P = - point_distance_from_line (a, b) P" for P
    by (simp add: point_distance_from_line_def algebra_simps)
  show ?thesis by (simp add: crosses_segment_def m p)
qed

lemma candidate_hash_swap: "candidate_hash_of b a = candidate_hash_of a b"
  by (simp add: candidate_hash_of_def min.commute max.commute)

lemma candidate_hash_sides_differ:
  assumes "\<not> point_distance_from_line l (xy a0) > 0" "\<not> point_distance_from_line l (xy b0) > 0"
    and "point_distance_from_line l (xy a1) > 0" "point_distance_from_line l (xy b1) > 0"
  shows "candidate_hash_of a0 b0 \<noteq> candidate_hash_of a1 b1"
proof
  assume h: "candidate_hash_of a0 b0 = candidate_hash_of a1 b1"
  have sx: "corner_x a0 + corner_x b0 = corner_x a1 + corner_x b1"
    using h by (auto simp: candidate_hash_of_def min_def max_def split: if_splits)
  have sy: "corner_y a0 + corner_y b0 = corner_y a1 + corner_y b1"
    using h by (auto simp: candidate_hash_of_def min_def max_def split: if_splits)
  obtain px py qx qy where l: "l = ((px, py), (qx, qy))" by (metis surj_pair)
  have "point_distance_from_line l (xy a0) + point_distance_from_line l (xy b0)
        = (corner_x a0 + corner_x b0 - 2 * px) * (qy - py)
          - (corner_y a0 + corner_y b0 - 2 * py) * (qx - px)"
    by (simp add: point_distance_from_line_def xy_def l algebra_simps)
  also have "\<dots> = point_distance_from_line l (xy a1) + point_distance_from_line l (xy b1)"
    unfolding sx sy by (simp add: point_distance_from_line_def xy_def l algebra_simps)
  finally show False using assms by linarith
qed

lemma consider_single_pair:
  assumes "corner_u a \<noteq> corner_u b"
    and "\<not> crosses_segment (un, vn) (xy a, xy b)"
    and "candidate_hash_of a b \<notin> set (added_trenches es)"
  shows "new_pp (fold (consider_pair sid un vn side) (combinations2 [a, b]) es)
           = new_pp es @ [Some (a, b)]"
    and "added_trenches (fold (consider_pair sid un vn side) (combinations2 [a, b]) es)
           = added_trenches es @ [candidate_hash_of a b]"
  using assms
  by (simp_all add: consider_pair_def Let_def intersection_between_points_iff)

lemma side_pair_step:
  assumes S: "S = [a, b] \<or> S = [b, a]"
    and ab: "corner_u a \<noteq> corner_u b"
    and nc: "\<not> crosses_segment (un, vn) (xy a, xy b)"
    and h: "candidate_hash_of a b \<notin> set (added_trenches es)"
  shows "\<exists>p. (p = (a, b) \<or> p = (b, a))
           \<and> new_pp (fold (consider_pair sid un vn side) (combinations2 S) es)
               = new_pp es @ [Some p]
           \<and> added_trenches (fold (consider_pair sid un vn side) (combinations2 S) es)
               = added_trenches es @ [candidate_hash_of a b]"
  using S
proof
  assume "S = [a, b]"
  then show ?thesis using consider_single_pair[OF ab nc h] by blast
next
  assume Sb: "S = [b, a]"
  have ab': "corner_u b \<noteq> corner_u a" using ab by simp
  have nc': "\<not> crosses_segment (un, vn) (xy b, xy a)" using nc by (simp add: crosses_segment_swap)
  have h': "candidate_hash_of b a \<notin> set (added_trenches es)"
    using h by (simp add: candidate_hash_swap)
  show ?thesis using consider_single_pair[OF ab' nc' h', of sid side] Sb
    by (auto simp: candidate_hash_swap)
qed

lemma sqrt_short: "sqrt (9 / 100000000) = 3 / 10000"
  by (rule real_sqrt_unique) (simp_all add: power2_eq_square)

lemma gpl_short:
  "get_parallel_line_points (0, 0) (3 / 10000, 0) (1 / 10000) 0
     = ((0, 1 / 10000), (3 / 10000, 1 / 10000))"
  "get_parallel_line_points (0, 0) (3 / 10000, 0) (1 / 10000) (Suc 0)
     = ((0, - (1 / 10000)), (3 / 10000, - (1 / 10000)))"
  by (simp_all add: get_parallel_line_points_def round7_def round_half_even_def
      power2_eq_square sqrt_short)

lemma gpl_east_both:
  "get_parallel_line_points (0, 0) (1, 0) distance_from_center_of_road 0
     = ((0, 1 / 10000), (1, 1 / 10000))"
  "get_parallel_line_points (0, 0) (1, 0) distance_from_center_of_road 1
     = ((0, - (1 / 10000)), (1, - (1 / 10000)))"
  by (simp_all add: get_parallel_line_points_def round7_def round_half_even_def
      distance_from_center_of_road_def)

text \<open>
  C8, as stated, fails. On the street from (0,0) to (0.0003,0) the corner (0, 0.0001) at
  \<open>u\<close> and the corner (0.000204, 0.000028) at \<open>v\<close> lie on side 0 and the line through
  them crosses the street: the straight path proposes no trench on that side, the curved
  path, given the same street as a geometry of two points, builds the trench between
  these two corners.
\<close>

theorem two_point_street_paths_differ:
  "snd (straight_street 1 2 (0, 0) (3 / 10000, 0)
          [corner_at 0 (1 / 10000) 1 400000001, corner_at 0 (- (1 / 10000)) 1 400000002,
           corner_at (204 / 1000000) (28 / 1000000) 2 400000003,
           corner_at (3 / 10000) (- (1 / 10000)) 2 400000004]
          ([], []))
     = [Some (corner_at 0 (- (1 / 10000)) 1 400000002,
              corner_at (3 / 10000) (- (1 / 10000)) 2 400000004)]
   \<and> map_sum id (map (\<lambda>t. (u_for_edge t, v_for_edge t, trench_geometry t)))
        (curved_street 1 2 (0, 0) (3 / 10000, 0)
          [corner_at 0 (1 / 10000) 1 400000001, corner_at 0 (- (1 / 10000)) 1 400000002,
           corner_at (204 / 1000000) (28 / 1000000) 2 400000003,
           corner_at (3 / 10000) (- (1 / 10000)) 2 400000004]
          [(0, 0), (3 / 10000, 0)] [])
     = Inr [(corner_at 0 (1 / 10000) 1 400000001,
             corner_at (204 / 1000000) (28 / 1000000) 2 400000003,
             [(0, 1 / 10000), (204 / 1000000, 28 / 1000000)]),
            (corner_at 0 (- (1 / 10000)) 1 400000002,
             corner_at (3 / 10000) (- (1 / 10000)) 2 400000004,
             [(0, - (1 / 10000)), (3 / 10000, - (1 / 10000))])]"
proof -
  have s: "snd (straight_street 1 2 (0, 0) (3 / 10000, 0)
          [corner_at 0 (1 / 10000) 1 400000001, corner_at 0 (- (1 / 10000)) 1 400000002,
           corner_at (204 / 1000000) (28 / 1000000) 2 400000003,
           corner_at (3 / 10000) (- (1 / 10000)) 2 400000004]
          ([], []))
     = [Some (corner_at 0 (- (1 / 10000)) 1 400000002,
              corner_at (3 / 10000) (- (1 / 10000)) 2 400000004)]"
    by (simp add: straight_street_def Let_def street_sides_of_def
     point_distance_from_line_def xy_def corner_at_def TrenchCorner_def consider_pair_def
     intersection_between_points_def det_def candidate_hash_of_def street_segment_id_of_def
     is_between_def)
  have c: "map_sum id (map (\<lambda>t. (u_for_edge t, v_for_edge t, trench_geometry t)))
        (curved_street 1 2 (0, 0) (3 / 10000, 0)
          [corner_at 0 (1 / 10000) 1 400000001, corner_at 0 (- (1 / 10000)) 1 400000002,
           corner_at (204 / 1000000) (28 / 1000000) 2 400000003,
           corner_at (3 / 10000) (- (1 / 10000)) 2 400000004]
          [(0, 0), (3 / 10000, 0)] [])
     = Inr [(corner_at 0 (1 / 10000) 1 400000001,
             corner_at (204 / 1000000) (28 / 1000000) 2 400000003,
             [(0, 1 / 10000), (204 / 1000000, 28 / 1000000)]),
            (corner_at 0 (- (1 / 10000)) 1 400000002,
             corner_at (3 / 10000) (- (1 / 10000)) 2 400000004,
             [(0, - (1 / 10000)), (3 / 10000, - (1 / 10000))])]"
    by (simp add: curved_street_def curved_sides_def nth_err_def street_sides_of_def Let_def
      point_distance_from_line_def xy_def corner_at_def TrenchCorner_def
      distance_from_center_of_road_def get_trench_linestring_def walk_step_def walk_init_def
      walk_advance_def gpl_short node_distance_def sqrt_less_pos_iff power2_eq_square)
  show ?thesis using s c by simp
qed

text \<open>
  C8, amended. For a street of exactly two points between two different intersections,
  whose corners at the two ends are one per side and per end (in any order in the
  bucket), where on each side the line through the two corners does not cross the street
  segment and each corner is within the distance 10000000 of the point it is compared
  with: the straight path proposes exactly one candidate per side, the pair of the two
  corners of that side, and the curved path builds exactly one trench per side, between
  the same two corners, with the straight line between them as its polyline.
\<close>

theorem two_point_street_same_trenches:
  assumes uv: "u \<noteq> v"
    and cs: "mset (filter (\<lambda>c. corner_u c = u \<or> corner_u c = v) corners)
               = {#cu0, cv0, cu1, cv1#}"
    and ends: "corner_u cu0 = u" "corner_u cv0 = v" "corner_u cu1 = u" "corner_u cv1 = v"
    and side0: "\<not> point_distance_from_line (un, vn) (xy cu0) > 0"
               "\<not> point_distance_from_line (un, vn) (xy cv0) > 0"
    and side1: "point_distance_from_line (un, vn) (xy cu1) > 0"
               "point_distance_from_line (un, vn) (xy cv1) > 0"
    and nocross: "\<not> crosses_segment (un, vn) (xy cu0, xy cv0)"
                 "\<not> crosses_segment (un, vn) (xy cu1, xy cv1)"
    and near0:
      "node_distance (xy cu0)
         (fst (get_parallel_line_points un vn distance_from_center_of_road 0)) < 10000000"
      "node_distance (xy cv0)
         (fst (snd (get_parallel_line_points un vn distance_from_center_of_road 0)),
          fst (snd (get_parallel_line_points un vn distance_from_center_of_road 0))) < 10000000"
    and near1:
      "node_distance (xy cu1)
         (fst (get_parallel_line_points un vn distance_from_center_of_road 1)) < 10000000"
      "node_distance (xy cv1)
         (fst (snd (get_parallel_line_points un vn distance_from_center_of_road 1)),
          fst (snd (get_parallel_line_points un vn distance_from_center_of_road 1))) < 10000000"
  shows "\<exists>p0 p1 t0 t1.
           snd (straight_street u v un vn corners (pe, pp)) = pp @ [Some p0, Some p1]
         \<and> curved_street u v un vn corners [un, vn] curved_pp = Inr (curved_pp @ [t0, t1])
         \<and> (p0 = (cu0, cv0) \<or> p0 = (cv0, cu0)) \<and> (p1 = (cu1, cv1) \<or> p1 = (cv1, cu1))
         \<and> u_for_edge t0 = cu0 \<and> v_for_edge t0 = cv0
         \<and> trench_geometry t0 = [xy cu0, xy cv0]
         \<and> u_for_edge t1 = cu1 \<and> v_for_edge t1 = cv1
         \<and> trench_geometry t1 = [xy cu1, xy cv1]"
proof -
  let ?F = "filter (\<lambda>c. corner_u c = u \<or> corner_u c = v) corners"
  let ?pos = "\<lambda>c. point_distance_from_line (un, vn) (xy c) > 0"
  let ?S0 = "filter (\<lambda>c. \<not> ?pos c) ?F"
  let ?S1 = "filter ?pos ?F"
  have m0: "mset ?S0 = {#cu0, cv0#}"
    using side0 side1 by (simp only: mset_filter[of _ ?F] cs) simp
  have m1: "mset ?S1 = {#cu1, cv1#}"
    using side0 side1 by (simp only: mset_filter[of _ ?F] cs) simp
  have S0: "?S0 = [cu0, cv0] \<or> ?S0 = [cv0, cu0]" using m0 by (rule mset_pair_cases)
  have S1: "?S1 = [cu1, cv1] \<or> ?S1 = [cv1, cu1]" using m1 by (rule mset_pair_cases)
  \<comment> \<open>the straight path\<close>
  let ?sid = "street_segment_id_of u v"
  let ?es0 = "\<lparr>added_trenches = [], point_edges = pe, new_pp = pp\<rparr>"
  let ?es1 = "fold (consider_pair ?sid un vn 0) (combinations2 ?S0) ?es0"
  let ?es2 = "fold (consider_pair ?sid un vn 1) (combinations2 ?S1) ?es1"
  have r: "snd (straight_street u v un vn corners (pe, pp)) = new_pp ?es2"
    by (simp add: straight_street_def Let_def street_sides_of_def)
  have d0: "corner_u cu0 \<noteq> corner_u cv0" and d1: "corner_u cu1 \<noteq> corner_u cv1"
    using uv ends by simp_all
  obtain p0 where p0: "p0 = (cu0, cv0) \<or> p0 = (cv0, cu0)"
      "new_pp ?es1 = pp @ [Some p0]" "added_trenches ?es1 = [candidate_hash_of cu0 cv0]"
    using side_pair_step[OF S0 d0 nocross(1), of ?es0 ?sid 0] by auto
  have hd: "candidate_hash_of cu1 cv1 \<notin> set (added_trenches ?es1)"
    using candidate_hash_sides_differ[OF side0 side1] p0(3) by simp
  obtain p1 where p1: "p1 = (cu1, cv1) \<or> p1 = (cv1, cu1)"
      "new_pp ?es2 = new_pp ?es1 @ [Some p1]"
    using side_pair_step[OF S1 d1 nocross(2) hd, of ?sid 1] by auto
  have straight: "snd (straight_street u v un vn corners (pe, pp)) = pp @ [Some p0, Some p1]"
    unfolding r p1(2) p0(2) by simp
  \<comment> \<open>the curved path\<close>
  have fu: "mset (filter (\<lambda>c. corner_u c = u) corners) = {#cu0, cu1#}"
  proof -
    have "filter (\<lambda>c. corner_u c = u) corners = filter (\<lambda>c. corner_u c = u) ?F"
      by (simp, rule filter_cong) auto
    then show ?thesis using uv ends by (simp only: mset_filter[of _ ?F] cs) simp
  qed
  have fv: "mset (filter (\<lambda>c. corner_u c = v) corners) = {#cv0, cv1#}"
  proof -
    have "filter (\<lambda>c. corner_u c = v) corners = filter (\<lambda>c. corner_u c = v) ?F"
      by (simp, rule filter_cong) auto
    then show ?thesis using uv ends by (simp only: mset_filter[of _ ?F] cs) simp
  qed
  have u0: "filter (\<lambda>c. \<not> ?pos c) (filter (\<lambda>c. corner_u c = u) corners) = [cu0]"
    using side0 side1 by (intro filter_single(1)[OF fu]) simp_all
  have u1: "filter ?pos (filter (\<lambda>c. corner_u c = u) corners) = [cu1]"
    using side0 side1 by (intro filter_single(2)[OF fu]) simp_all
  have v0: "filter (\<lambda>c. \<not> ?pos c) (filter (\<lambda>c. corner_u c = v) corners) = [cv0]"
    using side0 side1 by (intro filter_single(1)[OF fv]) simp_all
  have v1: "filter ?pos (filter (\<lambda>c. corner_u c = v) corners) = [cv1]"
    using side0 side1 by (intro filter_single(2)[OF fv]) simp_all
  have sides: "curved_sides u v un vn corners [un, vn] = Inr ([[cu0], [cu1]], [[cv0], [cv1]])"
    using u0 u1 v0 v1 by (simp add: curved_sides_def nth_err_def street_sides_of_def Let_def)
  obtain t0 where t0: "get_trench_linestring [cu0] [cv0] [un, vn] distance_from_center_of_road 0
                         = Inr t0"
      "u_for_edge t0 = cu0" "v_for_edge t0 = cv0" "trench_geometry t0 = [xy cu0, xy cv0]"
    using two_point_linestring[OF near0] by blast
  obtain t1 where t1: "get_trench_linestring [cu1] [cv1] [un, vn] distance_from_center_of_road 1
                         = Inr t1"
      "u_for_edge t1 = cu1" "v_for_edge t1 = cv1" "trench_geometry t1 = [xy cu1, xy cv1]"
    using two_point_linestring[OF near1] by blast
  have curved: "curved_street u v un vn corners [un, vn] curved_pp = Inr (curved_pp @ [t0, t1])"
    using t0(1) t1(1) by (simp add: curved_street_def sides)
  show ?thesis using straight curved p0(1) p1(1) t0 t1 by blast
qed

theorem two_point_street_same_trenches_witness:
  "(1::int) \<noteq> 2
   \<and> \<not> crosses_segment ((0, 0), (1, 0))
         (xy (corner_at 0 (1 / 10000) 1 400000001), xy (corner_at 1 (1 / 10000) 2 400000002))
   \<and> \<not> crosses_segment ((0, 0), (1, 0))
         (xy (corner_at 0 (- (1 / 10000)) 1 400000003),
          xy (corner_at 1 (- (1 / 10000)) 2 400000004))
   \<and> (\<exists>p0 p1 t0 t1.
         snd (straight_street 1 2 (0, 0) (1, 0)
                [corner_at 0 (1 / 10000) 1 400000001, corner_at 1 (1 / 10000) 2 400000002,
                 corner_at 0 (- (1 / 10000)) 1 400000003,
                 corner_at 1 (- (1 / 10000)) 2 400000004] ([], []))
           = [] @ [Some p0, Some p1]
       \<and> curved_street 1 2 (0, 0) (1, 0)
                [corner_at 0 (1 / 10000) 1 400000001, corner_at 1 (1 / 10000) 2 400000002,
                 corner_at 0 (- (1 / 10000)) 1 400000003,
                 corner_at 1 (- (1 / 10000)) 2 400000004] [(0, 0), (1, 0)] []
           = Inr ([] @ [t0, t1])
       \<and> (p0 = (corner_at 0 (1 / 10000) 1 400000001, corner_at 1 (1 / 10000) 2 400000002)
          \<or> p0 = (corner_at 1 (1 / 10000) 2 400000002, corner_at 0 (1 / 10000) 1 400000001))
       \<and> (p1 = (corner_at 0 (- (1 / 10000)) 1 400000003,
                 corner_at 1 (- (1 / 10000)) 2 400000004)
          \<or> p1 = (corner_at 1 (- (1 / 10000)) 2 400000004,
                   corner_at 0 (- (1 / 10000)) 1 400000003))
       \<and> u_for_edge t0 = corner_at 0 (1 / 10000) 1 400000001
       \<and> v_for_edge t0 = corner_at 1 (1 / 10000) 2 400000002
       \<and> trench_geometry t0 = [xy (corner_at 0 (1 / 10000) 1 400000001),
                                xy (corner_at 1 (1 / 10000) 2 400000002)]
       \<and> u_for_edge t1 = corner_at 0 (- (1 / 10000)) 1 400000003
       \<and> v_for_edge t1 = corner_at 1 (- (1 / 10000)) 2 400000004
       \<and> trench_geometry t1 = [xy (corner_at 0 (- (1 / 10000)) 1 400000003),
                                xy (corner_at 1 (- (1 / 10000)) 2 400000004)])"
proof -
  let ?c1 = "corner_at 0 (1 / 10000) 1 400000001"
  let ?c2 = "corner_at 1 (1 / 10000) 2 400000002"
  let ?c3 = "corner_at 0 (- (1 / 10000)) 1 400000003"
  let ?c4 = "corner_at 1 (- (1 / 10000)) 2 400000004"
  have uv: "(1::int) \<noteq> 2" by simp
  have cs: "mset (filter (\<lambda>c. corner_u c = 1 \<or> corner_u c = 2) [?c1, ?c2, ?c3, ?c4])
              = {#?c1, ?c2, ?c3, ?c4#}"
    by (simp add: corner_at_def TrenchCorner_def)
  have ends: "corner_u ?c1 = 1" "corner_u ?c2 = 2" "corner_u ?c3 = 1" "corner_u ?c4 = 2"
    by (simp_all add: corner_at_def TrenchCorner_def)
  have side0: "\<not> point_distance_from_line ((0, 0), (1, 0)) (xy ?c1) > 0"
      "\<not> point_distance_from_line ((0, 0), (1, 0)) (xy ?c2) > 0"
    by (simp_all add: point_distance_from_line_def xy_def corner_at_def TrenchCorner_def)
  have side1: "point_distance_from_line ((0, 0), (1, 0)) (xy ?c3) > 0"
      "point_distance_from_line ((0, 0), (1, 0)) (xy ?c4) > 0"
    by (simp_all add: point_distance_from_line_def xy_def corner_at_def TrenchCorner_def)
  have nocross: "\<not> crosses_segment ((0, 0), (1, 0)) (xy ?c1, xy ?c2)"
      "\<not> crosses_segment ((0, 0), (1, 0)) (xy ?c3, xy ?c4)"
    by (simp_all add: crosses_segment_def miter_det_def det_def xy_def corner_at_def
        TrenchCorner_def)
  have near0: "node_distance (xy ?c1)
         (fst (get_parallel_line_points (0, 0) (1, 0) distance_from_center_of_road 0)) < 10000000"
      "node_distance (xy ?c2)
         (fst (snd (get_parallel_line_points (0, 0) (1, 0) distance_from_center_of_road 0)),
          fst (snd (get_parallel_line_points (0, 0) (1, 0) distance_from_center_of_road 0)))
         < 10000000"
    by (simp_all add: gpl_east_both node_distance_def xy_def corner_at_def TrenchCorner_def
        sqrt_less_pos_iff power2_eq_square)
  have near1: "node_distance (xy ?c3)
         (fst (get_parallel_line_points (0, 0) (1, 0) distance_from_center_of_road 1)) < 10000000"
      "node_distance (xy ?c4)
         (fst (snd (get_parallel_line_points (0, 0) (1, 0) distance_from_center_of_road 1)),
          fst (snd (get_parallel_line_points (0, 0) (1, 0) distance_from_center_of_road 1)))
         < 10000000"
    by (simp_all only: gpl_east_both fst_conv snd_conv)
       (simp_all add: node_distance_def xy_def corner_at_def TrenchCorner_def
          sqrt_less_pos_iff power2_eq_square)
  note r = two_point_street_same_trenches[OF uv cs ends side0 side1 nocross near0 near1,
        of "[]" "[]" "[]"]
  show ?thesis
    by (intro conjI) (rule uv, rule nocross(1), rule nocross(2), rule r)
qed

subsection \<open>Corner synthesis on the two road graphs\<close>

lemma arccos_sqrt2: "arccos (sqrt 2 / 2) = pi / 4"
  using arccos_cos[of "pi/4"] by (simp add: cos_45)

lemma arccos_msqrt2: "arccos (- (sqrt 2 / 2)) = 3 * pi / 4"
proof -
  have "sqrt 2 \<le> 2" using sqrt2_less_2 by simp
  moreover have "- 2 \<le> sqrt 2" by (smt (verit) real_sqrt_ge_zero)
  ultimately show ?thesis
    using arccos_minus[of "sqrt 2 / 2"] arccos_sqrt2 by (simp add: field_simps)
qed

lemma hypot_diag:
  "a > 0 \<Longrightarrow> hypot a a = a * sqrt 2" "a > 0 \<Longrightarrow> hypot (- a) a = a * sqrt 2"
  "a > 0 \<Longrightarrow> hypot (- a) (- a) = a * sqrt 2" "a > 0 \<Longrightarrow> hypot a (- a) = a * sqrt 2"
  by (simp_all add: hypot_def real_sqrt_mult flip: mult_2)

lemma inv_sqrt2: "1 / sqrt 2 = sqrt 2 / 2"
  by (simp add: real_div_sqrt field_simps)

lemma angle_diag:
  "a > 0 \<Longrightarrow> angle (1, 0) (a, a) = Inr (pi / 4)"
  "a > 0 \<Longrightarrow> angle (1, 0) (- a, a) = Inr (3 * pi / 4)"
  "a > 0 \<Longrightarrow> angle (1, 0) (- a, - a) = Inr (5 * pi / 4)"
  "a > 0 \<Longrightarrow> angle (1, 0) (a, - a) = Inr (7 * pi / 4)"
  by (simp_all add: angle_def hypot_axis hypot_diag Let_def inv_sqrt2 arccos_sqrt2 arccos_msqrt2)

lemma trig_3pi2: "cos (3 * pi / 2) = 0" "sin (3 * pi / 2) = - 1"
  using cos_3over2_pi sin_3over2_pi by (simp_all add: field_simps)

lemmas synth_defs = process_intersection_def bind_err_def Let_def corner_step_def dict_get_def
     locals_init_def street_segment_id_of_def dict_setdefault_def place_corner_def
     corner_is_new_def corner_in_def corner_eq_def TrenchCorner_def point_on_circle_def
     distance_from_center_of_road_def bucket_add_def set_add_def xy_def wrap_around_def
     crossing_append_def







subsection \<open>The corners and the crossing edges of one intersection\<close>

lemma same_dir_nb:
  "neighbors_loop net_same_dir (0, 0) 1 (net_neighbors net_same_dir 1) []
     = Inr [(pi / 4, 3), (3 * pi / 4, 4)]"
  "neighbors_loop net_same_dir p 2 (net_neighbors net_same_dir 2) [] = Inr []"
  "neighbors_loop net_same_dir p 3 (net_neighbors net_same_dir 3) [] = Inr []"
  "neighbors_loop net_same_dir p 4 (net_neighbors net_same_dir 4) [] = Inr []"
  using angle_diag(1)[of 1] angle_diag(1)[of 2] angle_diag(2)[of 1]
  by (simp_all add: net_same_dir_def neighbor_radian_def bind_err_def dict_get_def)

lemma same_dir_nodes:
  "net_nodes net_same_dir = [(1, (0, 0)), (2, (1, 1)), (3, (2, 2)), (4, (- 1, 1))]"
  by (simp add: net_same_dir_def)

text \<open>
  C3, as stated, fails. The vectors to the neighbours are stored in a dictionary whose
  key is the angle of the vector, so that a second neighbour in the same direction
  replaces the first one. Intersection 1 of the graph above has the three neighbours 2, 3
  and 4; the neighbours 2 and 3 share the angle \<open>pi / 4\<close>, and the synthesis stores two
  corners, (0, 0.0001) and (0, -0.0001), and two crossing edges, where three of each are
  claimed; the street to 2 receives no bucket.
\<close>

theorem same_direction_streets_share_a_key:
  "net_neighbors net_same_dir 1 = [2, 3, 4]
   \<and> map_sum id (\<lambda>st. (map (\<lambda>(sid, b). (sid, map (\<lambda>c. (xy c, node_for_adding c)) b))
                          (output_trench_corners st),
                        output_road_crossing st))
        (get_trench_corners net_same_dir)
     = Inr ([((1, 3), [((0, 1 / 10000), Some 400000001),
                       ((0, - (1 / 10000)), Some 400000002)]),
             ((1, 4), [((0, 1 / 10000), Some 400000001),
                       ((0, - (1 / 10000)), Some 400000002)])],
            [((1, 4), [(400000001, 400000002)]), ((1, 3), [(400000002, 400000001)])])"
proof (rule conjI)
  show "net_neighbors net_same_dir 1 = [2, 3, 4]" by (simp add: net_same_dir_def)
  show "map_sum id (\<lambda>st. (map (\<lambda>(sid, b). (sid, map (\<lambda>c. (xy c, node_for_adding c)) b))
                          (output_trench_corners st),
                        output_road_crossing st))
        (get_trench_corners net_same_dir)
     = Inr ([((1, 3), [((0, 1 / 10000), Some 400000001),
                       ((0, - (1 / 10000)), Some 400000002)]),
             ((1, 4), [((0, 1 / 10000), Some 400000001),
                       ((0, - (1 / 10000)), Some 400000002)])],
            [((1, 4), [(400000001, 400000002)]), ((1, 3), [(400000002, 400000001)])])"
    by (simp add: get_trench_corners_def same_dir_nodes synth_defs same_dir_nb synth_init_def
          trig_3pi2 del: neighbors_loop.simps)
qed

lemma all_corners_update:
  "map_of otc k = Some b \<Longrightarrow> set b \<subseteq> set b' \<Longrightarrow>
   set (all_corners (AList.update k b' otc)) = set (all_corners otc) \<union> set b'"
proof (induction otc)
  case Nil
  then show ?case by simp
next
  case (Cons p otc)
  obtain k' b0 where p: "p = (k', b0)" by (cases p)
  show ?case
  proof (cases "k' = k")
    case True
    then have "b0 = b" using Cons.prems p by simp
    then show ?thesis using True p Cons.prems by (auto simp: all_corners_def)
  next
    case False
    then have "map_of otc k = Some b" using Cons.prems p by simp
    from Cons.IH[OF this Cons.prems(2)] show ?thesis
      using False p by (auto simp: all_corners_def)
  qed
qed

lemma all_corners_setdefault:
  "set (all_corners (dict_setdefault k [] otc)) = set (all_corners otc)"
  by (simp add: dict_setdefault_def all_corners_def split: option.splits)

lemma map_of_setdefault:
  "map_of (dict_setdefault k v otc) k \<noteq> None"
  "map_of otc k' \<noteq> None \<Longrightarrow> map_of (dict_setdefault k v otc) k' \<noteq> None"
  by (auto simp: dict_setdefault_def map_add_def split: option.splits)

lemma bucket_subset: "map_of otc k = Some b \<Longrightarrow> set b \<subseteq> set (all_corners otc)"
  by (auto simp: all_corners_def dest!: map_of_SomeD)

lemma all_crossings_append:
  "mset (all_crossings (crossing_append sid c orc)) = mset (all_crossings orc) + {#c#}"
proof (induction orc)
  case Nil
  then show ?case by (simp add: crossing_append_def all_crossings_def)
next
  case (Cons p orc)
  obtain k' l0 where p: "p = (k', l0)" by (cases p)
  show ?case
  proof (cases "k' = sid")
    case True
    then show ?thesis using p by (simp add: crossing_append_def all_crossings_def)
  next
    case False
    then show ?thesis using p Cons
      by (simp add: crossing_append_def all_crossings_def)
  qed
qed

lemma point_on_circle_distance:
  "0 \<le> r \<Longrightarrow> node_distance (point_on_circle cur r \<beta>) cur = r"
proof -
  assume r: "0 \<le> r"
  have "(r * cos \<beta>)\<^sup>2 + (r * sin \<beta>)\<^sup>2 = r\<^sup>2 * ((cos \<beta>)\<^sup>2 + (sin \<beta>)\<^sup>2)"
    by (simp only: power_mult_distrib distrib_left)
  also have "\<dots> = r\<^sup>2" by (simp only: sin_cos_squared_add2 mult_1_right)
  finally have "(r * cos \<beta>)\<^sup>2 + (r * sin \<beta>)\<^sup>2 = r\<^sup>2" .
  then show ?thesis using r
    by (simp add: node_distance_def point_on_circle_def)
qed

lemma point_on_circle_inj:
  assumes "r \<noteq> 0" and "0 < b - a" and "b - a < 2 * pi"
  shows "point_on_circle cur r a \<noteq> point_on_circle cur r b"
proof
  assume "point_on_circle cur r a = point_on_circle cur r b"
  then have c: "cos a = cos b" and s: "sin a = sin b"
    using assms(1) by (simp_all add: point_on_circle_def)
  have "cos (b - a) = cos b * cos a + sin b * sin a" by (rule cos_diff)
  also have "\<dots> = (cos b)\<^sup>2 + (sin b)\<^sup>2" by (simp add: c s power2_eq_square)
  also have "\<dots> = 1" by simp
  finally obtain n :: int where n: "b - a = of_int n * 2 * pi"
    using cos_one_2pi_int by blast
  have "0 < of_int n * (2 * pi)" using assms(2) n by (simp add: mult.assoc)
  then have "0 < n" using pi_gt_zero by (simp add: zero_less_mult_iff)
  moreover have "of_int n * (2 * pi) < 1 * (2 * pi)" using assms(3) n by (simp add: mult.assoc)
  then have "n < 1" using pi_gt_zero by (simp only: mult_less_cancel_right) auto
  ultimately show False by simp
qed

lemma corner_in_iff: "corner_in node b \<longleftrightarrow> (\<exists>c \<in> set b. xy c = xy node)"
  by (simp add: corner_in_def list_ex_iff corner_eq_def xy_def) metis

lemma corner_is_new_fresh:
  assumes "\<forall>c \<in> set (all_corners otc). xy c \<noteq> xy node"
    and "map_of otc fs \<noteq> None" and "map_of otc ls \<noteq> None"
  shows "corner_is_new otc (Some fs) (Some ls) node = Inr True"
proof -
  obtain b1 b2 where b: "map_of otc fs = Some b1" "map_of otc ls = Some b2"
    using assms(2,3) by auto
  have "\<not> corner_in node b1" "\<not> corner_in node b2"
    using assms(1) bucket_subset[OF b(1)] bucket_subset[OF b(2)]
    by (auto simp: corner_in_iff)
  then show ?thesis using b by (simp add: corner_is_new_def bind_err_def dict_get_def)
qed

lemma bucket_add_ok:
  assumes "map_of otc sid \<noteq> None"
  shows "\<exists>otc'. bucket_add sid node otc = Inr otc'
           \<and> set (all_corners otc) \<subseteq> set (all_corners otc')
           \<and> set (all_corners otc') \<subseteq> insert node (set (all_corners otc))
           \<and> ((\<forall>c \<in> set (all_corners otc). xy c \<noteq> xy node)
                 \<longrightarrow> node \<in> set (all_corners otc'))
           \<and> (\<forall>k. map_of otc' k \<noteq> None \<longleftrightarrow> map_of otc k \<noteq> None)"
proof -
  obtain b where b: "map_of otc sid = Some b" using assms by auto
  let ?otc' = "AList.update sid (set_add node b) otc"
  have r: "bucket_add sid node otc = Inr ?otc'"
    using b by (simp add: bucket_add_def bind_err_def dict_get_def)
  have sub: "set b \<subseteq> set (set_add node b)" by (auto simp: set_add_def)
  have S: "set (all_corners ?otc') = set (all_corners otc) \<union> set (set_add node b)"
    using all_corners_update[OF b sub] .
  have "set (set_add node b) \<subseteq> insert node (set b)" by (auto simp: set_add_def)
  then have up: "set (all_corners ?otc') \<subseteq> insert node (set (all_corners otc))"
    using S bucket_subset[OF b] by auto
  have new: "node \<in> set (all_corners ?otc')"
    if "\<forall>c \<in> set (all_corners otc). xy c \<noteq> xy node"
  proof -
    have "\<not> corner_in node b" using that bucket_subset[OF b] by (auto simp: corner_in_iff)
    then show ?thesis using S by (simp add: set_add_def)
  qed
  have keys: "map_of ?otc' k \<noteq> None \<longleftrightarrow> map_of otc k \<noteq> None" for k
    using b by (simp add: update_conv')
  show ?thesis using r S up new keys by blast
qed

lemma place_corner_fresh:
  assumes fresh: "\<forall>c \<in> set (all_corners (output_trench_corners st)). xy c \<noteq> xy node"
    and fs: "first_street_id loc = Some fs"
    and keys: "map_of (output_trench_corners st) fs \<noteq> None"
      "map_of (output_trench_corners st) ls \<noteq> None"
      "map_of (output_trench_corners st) sid \<noteq> None"
  shows "\<exists>st2. place_corner st loc sid ls node = Inr st2
           \<and> node_id st2 = node_id st + 1
           \<and> output_road_crossing st2 = output_road_crossing st
           \<and> set (all_corners (output_trench_corners st2))
               = insert (node\<lparr>node_for_adding := Some (node_id st + 1)\<rparr>)
                   (set (all_corners (output_trench_corners st)))
           \<and> (\<forall>k. map_of (output_trench_corners st2) k \<noteq> None
                 \<longleftrightarrow> map_of (output_trench_corners st) k \<noteq> None)"
proof -
  let ?node' = "node\<lparr>node_for_adding := Some (node_id st + 1)\<rparr>"
  let ?otc = "output_trench_corners st"
  have xy': "xy ?node' = xy node" by (simp add: xy_def)
  have new: "corner_is_new ?otc (first_street_id loc) (Some ls) node = Inr True"
    unfolding fs using fresh keys(1,2) by (rule corner_is_new_fresh)
  obtain o1 where o1: "bucket_add sid ?node' ?otc = Inr o1"
      "set (all_corners ?otc) \<subseteq> set (all_corners o1)"
      "set (all_corners o1) \<subseteq> insert ?node' (set (all_corners ?otc))"
      "?node' \<in> set (all_corners o1)"
      "\<forall>k. map_of o1 k \<noteq> None \<longleftrightarrow> map_of ?otc k \<noteq> None"
    using bucket_add_ok[OF keys(3), of ?node'] fresh xy' by auto
  have "map_of o1 ls \<noteq> None" using o1(5) keys(2) by blast
  then obtain o2 where o2: "bucket_add ls ?node' o1 = Inr o2"
      "set (all_corners o1) \<subseteq> set (all_corners o2)"
      "set (all_corners o2) \<subseteq> insert ?node' (set (all_corners o1))"
      "\<forall>k. map_of o2 k \<noteq> None \<longleftrightarrow> map_of o1 k \<noteq> None"
    using bucket_add_ok[of o1 ls ?node'] by auto
  have S: "set (all_corners o2) = insert ?node' (set (all_corners ?otc))"
    using o1(2,3,4) o2(2,3) by auto
  have r: "place_corner st loc sid ls node
             = Inr (st\<lparr>node_id := node_id st + 1, output_trench_corners := o2,
                       nodes := AList.update (xy ?node') ?node' (nodes st)\<rparr>)"
    using new o1(1) o2(1) by (simp add: place_corner_def bind_err_def Let_def)
  show ?thesis unfolding r using S o1(5) o2(4) by simp
qed

lemma card_insert_diff_le:
  assumes "card (set xs - S0) \<le> m" and "A = insert x (set xs)"
  shows "card (A - S0) \<le> Suc m"
proof -
  have "A - S0 \<subseteq> insert x (set xs - S0)" using assms(2) by auto
  then have "card (A - S0) \<le> card (insert x (set xs - S0))"
    by (intro card_mono) simp_all
  also have "\<dots> \<le> Suc (card (set xs - S0))" by (simp add: card_insert_if)
  finally show ?thesis using assms(1) by simp
qed

lemma card_by_ids:
  assumes "finite T"
    and "\<forall>j. 1 \<le> j \<and> j \<le> n \<longrightarrow> (\<exists>c \<in> T. node_for_adding c = Some (k + int j))"
  shows "n \<le> card T"
proof -
  let ?f = "\<lambda>j. Some (k + int j)"
  have inj: "inj_on ?f {1..n}" by (simp add: inj_on_def)
  have "?f ` {1..n} \<subseteq> node_for_adding ` T"
  proof
    fix y assume "y \<in> ?f ` {1..n}"
    then obtain j where j: "1 \<le> j" "j \<le> n" "y = ?f j" by auto
    then obtain c where "c \<in> T" "node_for_adding c = Some (k + int j)"
      using assms(2) by blast
    then show "y \<in> node_for_adding ` T" using j(3) by force
  qed
  then have "card (?f ` {1..n}) \<le> card (node_for_adding ` T)"
    using assms(1) by (intro card_mono) simp_all
  also have "\<dots> \<le> card T" using assms(1) by (rule card_image_le)
  finally show ?thesis using card_image[OF inj] by simp
qed

lemma d_pos: "0 < distance_from_center_of_road"
  by (simp add: distance_from_center_of_road_def)

lemma new_corners_mono:
  "hi \<le> hi' \<Longrightarrow> m \<le> m' \<Longrightarrow> new_corners cur k lo hi m \<subseteq> new_corners cur k lo hi' m'"
  unfolding new_corners_def by (rule Collect_mono) (meson le_trans less_le_trans)

lemma fresh_next:
  assumes sub: "S \<subseteq> S0 \<union> new_corners cur k r1 lr m"
    and old: "\<forall>c \<in> S0. node_distance (xy c) cur \<noteq> distance_from_center_of_road"
    and b: "lr \<le> \<beta>'" "\<beta>' < r1 + 2 * pi"
  shows "\<forall>c \<in> S. xy c \<noteq> point_on_circle cur distance_from_center_of_road \<beta>'"
proof
  fix c assume "c \<in> S"
  then consider "c \<in> S0" | "c \<in> new_corners cur k r1 lr m" using sub by auto
  then show "xy c \<noteq> point_on_circle cur distance_from_center_of_road \<beta>'"
  proof cases
    case 1
    then show ?thesis
      using old point_on_circle_distance[of distance_from_center_of_road cur \<beta>'] d_pos
      by (metis less_imp_le)
  next
    case 2
    then obtain \<beta> where \<beta>: "r1 < \<beta>" "\<beta> < lr"
      "xy c = point_on_circle cur distance_from_center_of_road \<beta>"
      by (auto simp: new_corners_def)
    have d: "0 < \<beta>' - \<beta>" "\<beta>' - \<beta> < 2 * pi" using \<beta>(1,2) b by linarith+
    have ne: "distance_from_center_of_road \<noteq> 0" using d_pos by simp
    show ?thesis using point_on_circle_inj[OF ne d, of cur] \<beta>(3) by simp
  qed
qed

lemma cycle_edges_Suc:
  "0 < m \<Longrightarrow> cycle_edges k (Suc m) = cycle_edges k m @ [(k + int m, k + int m + 1)]"
  by (simp add: cycle_edges_def)

lemma cycle_edges_small: "cycle_edges k 0 = []" "cycle_edges k (Suc 0) = []"
  by (simp_all add: cycle_edges_def)

lemma corner_step_first:
  assumes nb: "map_of neighbors radian = Some v"
    and S: "set (all_corners (output_trench_corners st)) \<subseteq> S0"
    and X: "mset (all_crossings (output_road_crossing st)) = X0"
  shows "\<exists>sl'. corner_step u cur neighbors (st, locals_init) radian = Inr sl'
           \<and> synth_inv cur (node_id st) S0 X0 radian radian 0 sl'"
proof -
  let ?sid = "street_segment_id_of u v"
  let ?st1 = "st\<lparr>output_trench_corners := dict_setdefault ?sid [] (output_trench_corners st)\<rparr>"
  let ?loc = "locals_init\<lparr>first_radian := Some radian, first_street_id := Some ?sid,
                           street_segment_id := Some ?sid,
                           last_radian := Some radian, last_street_id := Some ?sid\<rparr>"
  have r: "corner_step u cur neighbors (st, locals_init) radian = Inr (?st1, ?loc)"
    using nb by (simp add: corner_step_def bind_err_def dict_get_def Let_def locals_init_def)
  have "synth_inv cur (node_id st) S0 X0 radian radian 0 (?st1, ?loc)"
    using S X map_of_setdefault(1)[of ?sid "[]" "output_trench_corners st"]
    by (auto simp: synth_inv_def all_corners_setdefault cycle_edges_small locals_init_def)
  then show ?thesis using r by blast
qed

lemma corner_step_next:
  assumes inv: "synth_inv cur k S0 X0 r1 lr m sl"
    and old: "\<forall>c \<in> S0. node_distance (xy c) cur \<noteq> distance_from_center_of_road"
    and nb: "map_of neighbors radian = Some v"
    and ord: "lr < radian" "radian < r1 + 2 * pi"
  shows "\<exists>sl'. corner_step u cur neighbors sl radian = Inr sl'
           \<and> synth_inv cur k S0 X0 r1 radian (Suc m) sl'"
proof -
  obtain st loc where sl: "sl = (st, loc)" by (cases sl)
  from inv obtain fs ls where
    loc: "first_radian loc = Some r1" "last_radian loc = Some lr" "r1 \<le> lr"
      "first_street_id loc = Some fs" "last_street_id loc = Some ls"
    and keys: "map_of (output_trench_corners st) fs \<noteq> None"
      "map_of (output_trench_corners st) ls \<noteq> None"
    and nid: "node_id st = k + int m"
    and lnid: "last_node_id loc = (if m = 0 then None else Some (k + int m))"
    and fnid: "first_node_id loc = (if m = 0 then None else Some (k + 1))"
    and X: "mset (all_crossings (output_road_crossing st)) = X0 + mset (cycle_edges k m)"
    and S: "set (all_corners (output_trench_corners st)) \<subseteq> S0 \<union> new_corners cur k r1 lr m"
    and W: "\<forall>j. 1 \<le> j \<and> j \<le> m \<longrightarrow>
            (\<exists>c \<in> set (all_corners (output_trench_corners st)).
               node_distance (xy c) cur = distance_from_center_of_road
               \<and> node_for_adding c = Some (k + int j))"
    and C: "card (set (all_corners (output_trench_corners st)) - S0) \<le> m"
    unfolding synth_inv_def sl by auto
  let ?sid = "street_segment_id_of u v"
  let ?otc1 = "dict_setdefault ?sid [] (output_trench_corners st)"
  let ?st1 = "st\<lparr>output_trench_corners := ?otc1\<rparr>"
  let ?b = "(lr + radian) / 2"
  let ?p = "point_on_circle cur distance_from_center_of_road ?b"
  let ?node = "TrenchCorner (fst ?p) (snd ?p) 2 u {?sid, ls}"
  have ab: "\<bar>radian - lr\<bar> = radian - lr" using ord(1) by simp
  have between: "radian - (radian - lr) / 2 = ?b" by (simp add: field_simps)
  have xyn: "xy ?node = ?p" by (simp add: xy_def TrenchCorner_def)
  have S1: "set (all_corners ?otc1) = set (all_corners (output_trench_corners st))"
    by (rule all_corners_setdefault)
  have fresh: "\<forall>c \<in> set (all_corners (output_trench_corners ?st1)). xy c \<noteq> xy ?node"
    unfolding xyn using fresh_next[OF S old, of ?b] ord loc(3) S1 by simp
  have keys1: "map_of (output_trench_corners ?st1) fs \<noteq> None"
      "map_of (output_trench_corners ?st1) ls \<noteq> None"
      "map_of (output_trench_corners ?st1) ?sid \<noteq> None"
    using keys by (simp_all add: map_of_setdefault)
  obtain st2 where st2: "place_corner ?st1 loc ?sid ls ?node = Inr st2"
      "node_id st2 = node_id st + 1"
      "output_road_crossing st2 = output_road_crossing st"
      "set (all_corners (output_trench_corners st2))
         = insert (?node\<lparr>node_for_adding := Some (node_id st + 1)\<rparr>)
             (set (all_corners (output_trench_corners st)))"
      "\<forall>k'. map_of (output_trench_corners st2) k' \<noteq> None
                 \<longleftrightarrow> map_of ?otc1 k' \<noteq> None"
    using place_corner_fresh[OF fresh loc(4) keys1] S1 by auto
  let ?node' = "?node\<lparr>node_for_adding := Some (node_id st + 1)\<rparr>"
  let ?st3 = "(case last_node_id loc of
                Some lnid \<Rightarrow> st2\<lparr>output_road_crossing :=
                               crossing_append ls (lnid, node_id st2) (output_road_crossing st2)\<rparr>
              | None \<Rightarrow> st2)"
  let ?loc' = "(case last_node_id loc of Some lnid \<Rightarrow> loc
               | None \<Rightarrow> loc\<lparr>first_node_id := Some (node_id st2)\<rparr>)
                 \<lparr>last_node_id := Some (node_id st2), street_segment_id := Some ?sid,
                  last_radian := Some radian, last_street_id := Some ?sid\<rparr>"
  have r: "corner_step u cur neighbors sl radian = Inr (?st3, ?loc')"
    using nb loc(2,5) st2(1)
    by (simp add: sl corner_step_def bind_err_def dict_get_def Let_def ab between)
  have n3: "node_id ?st3 = k + int (Suc m)"
    using st2(2) nid by (simp split: option.splits)
  have otc3: "output_trench_corners ?st3 = output_trench_corners st2"
    by (simp split: option.splits)
  have X3: "mset (all_crossings (output_road_crossing ?st3)) = X0 + mset (cycle_edges k (Suc m))"
  proof (cases "m = 0")
    case True
    then show ?thesis using lnid X st2(3) by (simp add: cycle_edges_small)
  next
    case False
    then have "last_node_id loc = Some (k + int m)" using lnid by simp
    then show ?thesis
      using X st2(2,3) nid False
      by (simp add: all_crossings_append cycle_edges_Suc)
  qed
  have xyn': "xy ?node' = ?p" by (simp add: xy_def TrenchCorner_def)
  have in_new: "?node' \<in> new_corners cur k r1 radian (Suc m)"
    unfolding new_corners_def
  proof (rule CollectI, intro exI[of _ ?b] exI[of _ "Suc m"] conjI)
    show "r1 < ?b" using loc(3) ord(1) by simp
    show "?b < radian" using ord(1) by simp
    show "xy ?node' = ?p" by (rule xyn')
    show "node_for_adding ?node' = Some (k + int (Suc m))" using nid by simp
  qed simp_all
  have S3: "set (all_corners (output_trench_corners ?st3))
              \<subseteq> S0 \<union> new_corners cur k r1 radian (Suc m)"
    unfolding otc3 st2(4)
    using S in_new new_corners_mono[of lr radian m "Suc m" cur k r1] ord(1) by auto
  have W3: "\<forall>j. 1 \<le> j \<and> j \<le> Suc m \<longrightarrow>
            (\<exists>c \<in> set (all_corners (output_trench_corners ?st3)).
               node_distance (xy c) cur = distance_from_center_of_road
               \<and> node_for_adding c = Some (k + int j))"
  proof (intro allI impI)
    fix j assume j: "1 \<le> j \<and> j \<le> Suc m"
    show "\<exists>c \<in> set (all_corners (output_trench_corners ?st3)).
               node_distance (xy c) cur = distance_from_center_of_road
               \<and> node_for_adding c = Some (k + int j)"
    proof (cases "j = Suc m")
      case True
      have "node_distance (xy ?node') cur = distance_from_center_of_road"
        unfolding xyn' using point_on_circle_distance d_pos by simp
      moreover have "node_for_adding ?node' = Some (k + int j)" using True nid by simp
      ultimately show ?thesis unfolding otc3 st2(4) by blast
    next
      case False
      then have "1 \<le> j \<and> j \<le> m" using j by simp
      then show ?thesis using W unfolding otc3 st2(4) by blast
    qed
  qed
  have keys3: "map_of (output_trench_corners ?st3) fs \<noteq> None"
      "map_of (output_trench_corners ?st3) ?sid \<noteq> None"
  proof -
    have k1: "map_of ?otc1 fs \<noteq> None" "map_of ?otc1 ?sid \<noteq> None"
      using keys1 by simp_all
    show "map_of (output_trench_corners ?st3) fs \<noteq> None"
      unfolding otc3 using st2(5) k1(1) by blast
    show "map_of (output_trench_corners ?st3) ?sid \<noteq> None"
      unfolding otc3 using st2(5) k1(2) by blast
  qed
  have "synth_inv cur k S0 X0 r1 radian (Suc m) (?st3, ?loc')"
    unfolding synth_inv_def fst_conv snd_conv
  proof (intro conjI)
    show "first_radian ?loc' = Some r1" using loc(1) by (simp split: option.splits)
    show "last_radian ?loc' = Some radian" by simp
    show "r1 \<le> radian" using loc(3) ord(1) by simp
    show "\<exists>fs ls. first_street_id ?loc' = Some fs \<and> last_street_id ?loc' = Some ls
             \<and> map_of (output_trench_corners ?st3) fs \<noteq> None
             \<and> map_of (output_trench_corners ?st3) ls \<noteq> None
             \<and> (Suc m = 0 \<longrightarrow> ls = fs \<and> street_segment_id ?loc' = Some fs)"
      using loc(4) keys3 by (intro exI[of _ fs] exI[of _ ?sid]) (simp split: option.splits)
    show "node_id ?st3 = k + int (Suc m)" by (rule n3)
    show "last_node_id ?loc' = (if Suc m = 0 then None else Some (k + int (Suc m)))"
      using st2(2) nid by simp
    show "first_node_id ?loc' = (if Suc m = 0 then None else Some (k + 1))"
      using fnid lnid st2(2) nid by (cases "m = 0") simp_all
    show "mset (all_crossings (output_road_crossing ?st3)) = X0 + mset (cycle_edges k (Suc m))"
      by (rule X3)
    show "set (all_corners (output_trench_corners ?st3))
              \<subseteq> S0 \<union> new_corners cur k r1 radian (Suc m)" by (rule S3)
    show "\<forall>j. 1 \<le> j \<and> j \<le> Suc m \<longrightarrow>
            (\<exists>c \<in> set (all_corners (output_trench_corners ?st3)).
               node_distance (xy c) cur = distance_from_center_of_road
               \<and> node_for_adding c = Some (k + int j))" by (rule W3)
    show "card (set (all_corners (output_trench_corners ?st3)) - S0) \<le> Suc m"
      unfolding otc3 using C st2(4) by (rule card_insert_diff_le)
  qed
  then show ?thesis using r by blast
qed

lemma corner_loop_inv:
  assumes old: "\<forall>c \<in> S0. node_distance (xy c) cur \<noteq> distance_from_center_of_road"
  shows "synth_inv cur k S0 X0 r1 lr m sl \<Longrightarrow> sorted_wrt (<) (lr # rs) \<Longrightarrow>
         (\<forall>r \<in> set rs. r < r1 + 2 * pi \<and> map_of neighbors r \<noteq> None) \<Longrightarrow>
         \<exists>sl'. corner_loop u cur neighbors sl rs = Inr sl'
              \<and> synth_inv cur k S0 X0 r1 (last (lr # rs)) (m + length rs) sl'"
proof (induction rs arbitrary: sl lr m)
  case Nil
  then show ?case by simp
next
  case (Cons r rs)
  obtain v where v: "map_of neighbors r = Some v" using Cons.prems(3) by auto
  have ord: "lr < r" "r < r1 + 2 * pi" using Cons.prems(2,3) by auto
  obtain sl1 where sl1: "corner_step u cur neighbors sl r = Inr sl1"
      "synth_inv cur k S0 X0 r1 r (Suc m) sl1"
    using corner_step_next[OF Cons.prems(1) old v ord] by blast
  have "sorted_wrt (<) (r # rs)" using Cons.prems(2) by simp
  moreover have "\<forall>r \<in> set rs. r < r1 + 2 * pi \<and> map_of neighbors r \<noteq> None"
    using Cons.prems(3) by simp
  ultimately obtain sl' where sl': "corner_loop u cur neighbors sl1 rs = Inr sl'"
      "synth_inv cur k S0 X0 r1 (last (r # rs)) (Suc m + length rs) sl'"
    using Cons.IH[OF sl1(2)] by blast
  show ?case using sl1(1) sl' by (simp add: bind_err_def)
qed

lemma new_corners_on_circle:
  "new_corners cur k lo hi m
     \<subseteq> {c. node_distance (xy c) cur = distance_from_center_of_road
            \<and> (\<exists>j. 1 \<le> j \<and> j \<le> m \<and> node_for_adding c = Some (k + int j))}"
  unfolding new_corners_def
  using point_on_circle_distance[of distance_from_center_of_road cur] d_pos by auto

lemma new_corners_empty: "new_corners cur k lo hi 0 = {}"
  by (auto simp: new_corners_def)

lemma two_bucket_adds:
  assumes fresh: "\<forall>c \<in> set (all_corners otc). xy c \<noteq> xy node"
    and keys: "map_of otc a \<noteq> None" "map_of otc b \<noteq> None"
  shows "\<exists>o1 o2. bucket_add a node otc = Inr o1 \<and> bucket_add b node o1 = Inr o2
           \<and> set (all_corners o2) = insert node (set (all_corners otc))
           \<and> (\<forall>k. map_of o2 k \<noteq> None \<longleftrightarrow> map_of otc k \<noteq> None)"
proof -
  obtain o1 where o1: "bucket_add a node otc = Inr o1"
      "set (all_corners otc) \<subseteq> set (all_corners o1)"
      "set (all_corners o1) \<subseteq> insert node (set (all_corners otc))"
      "node \<in> set (all_corners o1)"
      "\<forall>k. map_of o1 k \<noteq> None \<longleftrightarrow> map_of otc k \<noteq> None"
    using bucket_add_ok[OF keys(1), of node] fresh by auto
  have "map_of o1 b \<noteq> None" using o1(5) keys(2) by blast
  then obtain o2 where o2: "bucket_add b node o1 = Inr o2"
      "set (all_corners o1) \<subseteq> set (all_corners o2)"
      "set (all_corners o2) \<subseteq> insert node (set (all_corners o1))"
      "\<forall>k. map_of o2 k \<noteq> None \<longleftrightarrow> map_of o1 k \<noteq> None"
    using bucket_add_ok[of o1 b node] by auto
  have S: "set (all_corners o2) = insert node (set (all_corners otc))"
    using o1(2,3,4) o2(2,3) by auto
  have K: "\<forall>k. map_of o2 k \<noteq> None \<longleftrightarrow> map_of otc k \<noteq> None"
    using o1(5) o2(4) by blast
  show ?thesis using o1(1) o2(1) S K by blast
qed

lemma wrap_around_inv:
  assumes inv: "synth_inv cur k S0 X0 r1 lr m sl"
    and old: "\<forall>c \<in> S0. node_distance (xy c) cur \<noteq> distance_from_center_of_road"
    and m: "0 < m" and lr: "lr < r1 + 2 * pi"
  shows "\<exists>st'. wrap_around u cur sl = Inr st'
           \<and> node_id st' = k + int (Suc m)
           \<and> mset (all_crossings (output_road_crossing st'))
               = X0 + mset (cycle_edges k (Suc m)) + {#(k + int (Suc m), k + 1)#}
           \<and> set (all_corners (output_trench_corners st'))
               \<subseteq> S0 \<union> {c. node_distance (xy c) cur = distance_from_center_of_road
                            \<and> (\<exists>j. 1 \<le> j \<and> j \<le> Suc m
                                  \<and> node_for_adding c = Some (k + int j))}
           \<and> (\<forall>j. 1 \<le> j \<and> j \<le> Suc m \<longrightarrow>
                 (\<exists>c \<in> set (all_corners (output_trench_corners st')).
                    node_distance (xy c) cur = distance_from_center_of_road
                    \<and> node_for_adding c = Some (k + int j)))
           \<and> card (set (all_corners (output_trench_corners st')) - S0) \<le> Suc m"
proof -
  obtain st loc where sl: "sl = (st, loc)" by (cases sl)
  from inv m obtain fs ls where
    loc: "first_radian loc = Some r1" "last_radian loc = Some lr" "r1 \<le> lr"
      "first_street_id loc = Some fs" "last_street_id loc = Some ls"
    and keys: "map_of (output_trench_corners st) fs \<noteq> None"
      "map_of (output_trench_corners st) ls \<noteq> None"
    and nid: "node_id st = k + int m"
    and lnid: "last_node_id loc = Some (k + int m)"
    and fnid: "first_node_id loc = Some (k + 1)"
    and X: "mset (all_crossings (output_road_crossing st)) = X0 + mset (cycle_edges k m)"
    and S: "set (all_corners (output_trench_corners st)) \<subseteq> S0 \<union> new_corners cur k r1 lr m"
    and W: "\<forall>j. 1 \<le> j \<and> j \<le> m \<longrightarrow>
            (\<exists>c \<in> set (all_corners (output_trench_corners st)).
               node_distance (xy c) cur = distance_from_center_of_road
               \<and> node_for_adding c = Some (k + int j))"
    and C: "card (set (all_corners (output_trench_corners st)) - S0) \<le> m"
    unfolding synth_inv_def sl by auto
  let ?fr = "r1 + 2 * pi"
  let ?b = "(?fr + lr) / 2"
  let ?p = "point_on_circle cur distance_from_center_of_road ?b"
  let ?node = "TrenchCorner (fst ?p) (snd ?p) 2 u {fs, ls}"
  let ?node' = "?node\<lparr>node_for_adding := Some (node_id st + 1)\<rparr>"
  have ab: "\<bar>?fr - lr\<bar> = ?fr - lr" using lr by simp
  have between: "?fr - (?fr - lr) / 2 = ?b" by (simp add: field_simps)
  have xyn: "xy ?node = ?p" "xy ?node' = ?p" by (simp_all add: xy_def TrenchCorner_def)
  have fresh: "\<forall>c \<in> set (all_corners (output_trench_corners st)). xy c \<noteq> ?p"
    using fresh_next[OF S old, of ?b] lr by simp
  have new: "corner_is_new (output_trench_corners st) (Some fs) (Some ls) ?node = Inr True"
    using corner_is_new_fresh[of "output_trench_corners st" ?node fs ls] fresh keys xyn(1)
    by simp
  obtain o1 o2 where o: "bucket_add fs ?node' (output_trench_corners st) = Inr o1"
      "bucket_add ls ?node' o1 = Inr o2"
      "set (all_corners o2) = insert ?node' (set (all_corners (output_trench_corners st)))"
    using two_bucket_adds[of "output_trench_corners st" ?node' fs ls] fresh keys xyn(2)
    by auto
  let ?st' = "st\<lparr>node_id := node_id st + 1, output_trench_corners := o2,
                  output_road_crossing :=
                    crossing_append fs (node_id st + 1, k + 1)
                      (crossing_append ls (k + int m, node_id st + 1)
                         (output_road_crossing st))\<rparr>"
  have r: "wrap_around u cur sl = Inr ?st'"
    using loc new o(1,2) lnid fnid
    by (simp add: sl wrap_around_def bind_err_def Let_def ab between)
  have n': "node_id ?st' = k + int (Suc m)" using nid by simp
  have X': "mset (all_crossings (output_road_crossing ?st'))
               = X0 + mset (cycle_edges k (Suc m)) + {#(k + int (Suc m), k + 1)#}"
    using X nid m by (simp add: all_crossings_append cycle_edges_Suc)
  have dn: "node_distance (xy ?node') cur = distance_from_center_of_road"
    unfolding xyn using point_on_circle_distance d_pos by simp
  have idn: "node_for_adding ?node' = Some (k + int (Suc m))" using nid by simp
  have S': "set (all_corners (output_trench_corners ?st'))
               \<subseteq> S0 \<union> {c. node_distance (xy c) cur = distance_from_center_of_road
                            \<and> (\<exists>j. 1 \<le> j \<and> j \<le> Suc m
                                  \<and> node_for_adding c = Some (k + int j))}"
  proof
    fix c assume "c \<in> set (all_corners (output_trench_corners ?st'))"
    then consider "c = ?node'" | "c \<in> S0" | "c \<in> new_corners cur k r1 lr m"
      using o(3) S by auto
    then show "c \<in> S0 \<union> {c. node_distance (xy c) cur = distance_from_center_of_road
                            \<and> (\<exists>j. 1 \<le> j \<and> j \<le> Suc m
                                  \<and> node_for_adding c = Some (k + int j))}"
    proof cases
      case 1
      then show ?thesis using dn idn by (intro UnI2 CollectI conjI exI[of _ "Suc m"]) simp_all
    next
      case 2
      then show ?thesis by simp
    next
      case 3
      then obtain j where "node_distance (xy c) cur = distance_from_center_of_road"
          "1 \<le> j" "j \<le> m" "node_for_adding c = Some (k + int j)"
        using new_corners_on_circle[of cur k r1 lr m] by auto
      then show ?thesis by (intro UnI2 CollectI conjI exI[of _ j]) simp_all
    qed
  qed
  have W': "\<forall>j. 1 \<le> j \<and> j \<le> Suc m \<longrightarrow>
                 (\<exists>c \<in> set (all_corners (output_trench_corners ?st')).
                    node_distance (xy c) cur = distance_from_center_of_road
                    \<and> node_for_adding c = Some (k + int j))"
  proof (intro allI impI)
    fix j assume j: "1 \<le> j \<and> j \<le> Suc m"
    show "\<exists>c \<in> set (all_corners (output_trench_corners ?st')).
                    node_distance (xy c) cur = distance_from_center_of_road
                    \<and> node_for_adding c = Some (k + int j)"
    proof (cases "j = Suc m")
      case True
      then show ?thesis using dn idn o(3) by (intro bexI[of _ ?node']) simp_all
    next
      case False
      then have "1 \<le> j \<and> j \<le> m" using j by simp
      then obtain c where "c \<in> set (all_corners (output_trench_corners st))"
          "node_distance (xy c) cur = distance_from_center_of_road"
          "node_for_adding c = Some (k + int j)" using W by blast
      then show ?thesis using o(3) by (intro bexI[of _ c]) simp_all
    qed
  qed
  have C': "card (set (all_corners (output_trench_corners ?st')) - S0) \<le> Suc m"
    using C by (rule card_insert_diff_le) (simp add: o(3))
  show ?thesis using r n' X' S' W' C' by blast
qed

lemma all_crossings_setdefault:
  "all_crossings (dict_setdefault k [] orc) = all_crossings orc"
  by (simp add: dict_setdefault_def all_crossings_def split: option.splits)

lemma dead_end_corner_fresh:
  assumes fresh: "\<forall>c \<in> set (all_corners (output_trench_corners st)).
                    xy c \<noteq> point_on_circle cur distance_from_center_of_road (r1 + off)"
    and loc: "first_radian loc = Some r1" "first_street_id loc = Some fs"
      "last_street_id loc = Some fs"
    and key: "map_of (output_trench_corners st) fs \<noteq> None"
  shows "\<exists>st' c. dead_end_corner u cur loc off st = Inr (st', c)
           \<and> xy c = point_on_circle cur distance_from_center_of_road (r1 + off)
           \<and> node_for_adding c = Some (node_id st + 1)
           \<and> node_id st' = node_id st + 1
           \<and> set (all_corners (output_trench_corners st'))
               = insert c (set (all_corners (output_trench_corners st)))
           \<and> map_of (output_trench_corners st') fs \<noteq> None
           \<and> output_road_crossing st' = dict_setdefault fs [] (output_road_crossing st)"
proof -
  let ?p = "point_on_circle cur distance_from_center_of_road (r1 + off)"
  let ?node = "TrenchCorner (fst ?p) (snd ?p) 2 u
                      (case street_segment_id loc of None \<Rightarrow> {} | Some sid \<Rightarrow> {sid})"
  let ?node' = "?node\<lparr>node_for_adding := Some (node_id st + 1)\<rparr>"
  have xyn: "xy ?node = ?p" "xy ?node' = ?p" by (simp_all add: xy_def TrenchCorner_def)
  have new: "corner_is_new (output_trench_corners st) (Some fs) (Some fs) ?node = Inr True"
    using corner_is_new_fresh[of "output_trench_corners st" ?node fs fs] fresh key xyn(1)
    by simp
  obtain o1 where o1: "bucket_add fs ?node' (output_trench_corners st) = Inr o1"
      "set (all_corners (output_trench_corners st)) \<subseteq> set (all_corners o1)"
      "set (all_corners o1) \<subseteq> insert ?node' (set (all_corners (output_trench_corners st)))"
      "?node' \<in> set (all_corners o1)"
      "\<forall>k. map_of o1 k \<noteq> None \<longleftrightarrow> map_of (output_trench_corners st) k \<noteq> None"
    using bucket_add_ok[OF key, of ?node'] fresh xyn(2) by auto
  let ?st' = "st\<lparr>node_id := node_id st + 1, output_trench_corners := o1,
                  output_road_crossing := dict_setdefault fs [] (output_road_crossing st)\<rparr>"
  have r: "dead_end_corner u cur loc off st = Inr (?st', ?node')"
    using loc new o1(1) by (simp add: dead_end_corner_def bind_err_def Let_def)
  have S: "set (all_corners o1) = insert ?node' (set (all_corners (output_trench_corners st)))"
    using o1(2,3,4) by auto
  have K: "map_of o1 fs \<noteq> None" using o1(5) key by blast
  show ?thesis
    by (intro exI[of _ ?st'] exI[of _ ?node'] conjI r xyn(2)) (use S K in simp_all)
qed

lemma dead_end_unfold:
  assumes "dead_end_corner u cur (snd sl) (pi * (1 / 2)) (fst sl) = Inr (st1, c1)"
    and "dead_end_corner u cur (snd sl) (pi * (3 / 2)) st1 = Inr (st2, c2)"
    and "first_street_id (snd sl) = Some fs"
    and "map_of (output_road_crossing st2) fs = Some l"
    and "node_for_adding c1 = Some n1" and "node_for_adding c2 = Some n2"
  shows "dead_end u cur sl
           = Inr (st2\<lparr>output_road_crossing :=
                        AList.update fs (l @ [(n1, n2)]) (output_road_crossing st2)\<rparr>)"
  using assms by (simp add: dead_end_def bind_err_def Let_def dict_get_def)

lemma dead_end_inv:
  assumes inv: "synth_inv cur k S0 X0 r1 r1 0 sl"
    and old: "\<forall>c \<in> S0. node_distance (xy c) cur \<noteq> distance_from_center_of_road"
  shows "\<exists>st' c1 c2. dead_end u cur sl = Inr st'
           \<and> node_id st' = k + 2
           \<and> mset (all_crossings (output_road_crossing st')) = X0 + {#(k + 1, k + 2)#}
           \<and> set (all_corners (output_trench_corners st')) \<subseteq> S0 \<union> {c1, c2}
           \<and> c1 \<in> set (all_corners (output_trench_corners st'))
           \<and> c2 \<in> set (all_corners (output_trench_corners st'))
           \<and> xy c1 = point_on_circle cur distance_from_center_of_road (r1 + pi / 2)
           \<and> xy c2 = point_on_circle cur distance_from_center_of_road (r1 + pi / 2 + pi)
           \<and> node_for_adding c1 = Some (k + 1) \<and> node_for_adding c2 = Some (k + 2)"
proof -
  obtain st loc where sl: "sl = (st, loc)" by (cases sl)
  from inv obtain fs where
    loc: "first_radian loc = Some r1" "first_street_id loc = Some fs"
      "last_street_id loc = Some fs"
    and key: "map_of (output_trench_corners st) fs \<noteq> None"
    and nid: "node_id st = k"
    and X: "mset (all_crossings (output_road_crossing st)) = X0"
    and S: "set (all_corners (output_trench_corners st)) \<subseteq> S0"
    unfolding synth_inv_def sl by (auto simp: new_corners_empty cycle_edges_small)
  have S': "set (all_corners (output_trench_corners st)) \<subseteq> S0 \<union> new_corners cur k r1 r1 0"
    using S by auto
  have o1: "pi * (1 / 2) = pi / 2" and o2: "pi * (3 / 2) = pi / 2 + pi" by simp_all
  have f1: "\<forall>c \<in> set (all_corners (output_trench_corners st)).
              xy c \<noteq> point_on_circle cur distance_from_center_of_road (r1 + pi / 2)"
    using fresh_next[OF S' old, of "r1 + pi / 2"] pi_gt_zero by simp
  have f1': "\<forall>c \<in> set (all_corners (output_trench_corners st)).
              xy c \<noteq> point_on_circle cur distance_from_center_of_road (r1 + pi * (1 / 2))"
    using f1 by simp
  obtain st1 c1 where st1: "dead_end_corner u cur loc (pi * (1 / 2)) st = Inr (st1, c1)"
      "xy c1 = point_on_circle cur distance_from_center_of_road (r1 + pi / 2)"
      "node_for_adding c1 = Some (node_id st + 1)" "node_id st1 = node_id st + 1"
      "set (all_corners (output_trench_corners st1))
         = insert c1 (set (all_corners (output_trench_corners st)))"
      "map_of (output_trench_corners st1) fs \<noteq> None"
      "output_road_crossing st1 = dict_setdefault fs [] (output_road_crossing st)"
    using dead_end_corner_fresh[OF f1' loc key, where u = u] by auto
  have ne: "distance_from_center_of_road \<noteq> 0" using d_pos by simp
  have f2: "\<forall>c \<in> set (all_corners (output_trench_corners st1)).
              xy c \<noteq> point_on_circle cur distance_from_center_of_road (r1 + (pi / 2 + pi))"
  proof
    fix c assume "c \<in> set (all_corners (output_trench_corners st1))"
    then consider "c = c1" | "c \<in> set (all_corners (output_trench_corners st))"
      using st1(5) by auto
    then show "xy c \<noteq> point_on_circle cur distance_from_center_of_road (r1 + (pi / 2 + pi))"
    proof cases
      case 1
      have "0 < (r1 + (pi / 2 + pi)) - (r1 + pi / 2)"
           "(r1 + (pi / 2 + pi)) - (r1 + pi / 2) < 2 * pi"
        using pi_gt_zero by simp_all
      from point_on_circle_inj[OF ne this, of cur] show ?thesis using 1 st1(2) by simp
    next
      case 2
      then show ?thesis
        using fresh_next[OF S' old, of "r1 + (pi / 2 + pi)"] pi_gt_zero by simp
    qed
  qed
  have f2': "\<forall>c \<in> set (all_corners (output_trench_corners st1)).
              xy c \<noteq> point_on_circle cur distance_from_center_of_road (r1 + pi * (3 / 2))"
    using f2 by (simp add: field_simps)
  have e2: "r1 + pi * (3 / 2) = r1 + (pi / 2 + pi)" by (simp add: field_simps)
  obtain st2 c2 where st2: "dead_end_corner u cur loc (pi * (3 / 2)) st1 = Inr (st2, c2)"
      "xy c2 = point_on_circle cur distance_from_center_of_road (r1 + (pi / 2 + pi))"
      "node_for_adding c2 = Some (node_id st1 + 1)" "node_id st2 = node_id st1 + 1"
      "set (all_corners (output_trench_corners st2))
         = insert c2 (set (all_corners (output_trench_corners st1)))"
      "map_of (output_trench_corners st2) fs \<noteq> None"
      "output_road_crossing st2 = dict_setdefault fs [] (output_road_crossing st1)"
    using dead_end_corner_fresh[OF f2' loc st1(6), where u = u] unfolding e2 by auto
  have orc2: "output_road_crossing st2 = dict_setdefault fs [] (output_road_crossing st)"
    unfolding st2(7) st1(7) by (simp add: dict_setdefault_def map_add_def split: option.splits)
  obtain l where l: "map_of (output_road_crossing st2) fs = Some l"
    using map_of_setdefault(1)[of fs "[]" "output_road_crossing st"] orc2 by auto
  let ?st' = "st2\<lparr>output_road_crossing :=
                   AList.update fs (l @ [(k + 1, k + 2)]) (output_road_crossing st2)\<rparr>"
  have c1id: "node_for_adding c1 = Some (k + 1)" using st1(3) nid by simp
  have c2id: "node_for_adding c2 = Some (k + 2)" using st2(3) st1(4) nid by simp
  have r: "dead_end u cur sl = Inr ?st'"
    by (rule dead_end_unfold[of u cur sl st1 c1 st2 c2 fs l])
       (use st1(1) st2(1) loc(2) l c1id c2id in \<open>simp_all add: sl\<close>)
  have ca: "crossing_append fs (k + 1, k + 2) (output_road_crossing st2)
              = AList.update fs (l @ [(k + 1, k + 2)]) (output_road_crossing st2)"
    using l by (simp add: crossing_append_def)
  have X': "mset (all_crossings (output_road_crossing ?st')) = X0 + {#(k + 1, k + 2)#}"
    using all_crossings_append[of fs "(k + 1, k + 2)" "output_road_crossing st2"] X
    unfolding ca by (simp add: orc2 all_crossings_setdefault)
  have Sf: "set (all_corners (output_trench_corners ?st')) \<subseteq> S0 \<union> {c1, c2}"
    using st2(5) st1(5) S by auto
  have n2: "node_id ?st' = k + 2" using st2(4) st1(4) nid by simp
  have m1: "c1 \<in> set (all_corners (output_trench_corners ?st'))"
    and m2: "c2 \<in> set (all_corners (output_trench_corners ?st'))"
    using st2(5) st1(5) by simp_all
  have xy1: "xy c1 = point_on_circle cur distance_from_center_of_road (r1 + pi / 2)"
    using st1(2) by simp
  have xy2: "xy c2 = point_on_circle cur distance_from_center_of_road (r1 + pi / 2 + pi)"
    using st2(2) by (simp add: add.assoc)
  show ?thesis
    by (intro exI[of _ ?st'] exI[of _ c1] exI[of _ c2] conjI)
       (fact r, fact n2, fact X', fact Sf, fact m1, fact m2, fact xy1, fact xy2,
        fact c1id, fact c2id)
qed

lemma angle_x_axis_range:
  assumes "angle (1, 0) w = Inr r"
  shows "0 \<le> r \<and> r < 2 * pi"
proof -
  have nz: "(fst w, snd w) \<noteq> (0, 0)"
  proof
    assume "(fst w, snd w) = (0, 0)"
    then have "hypot (fst w) (snd w) = 0" by (simp add: hypot_def)
    then show False using assms by (simp add: angle_def Let_def)
  qed
  from angle_x_axis_polar[OF _ nz, of 1] assms show ?thesis by auto
qed

lemma neighbor_radian_range:
  "neighbor_radian nw cur u v = Inr r \<Longrightarrow> 0 \<le> r \<and> r < 2 * pi"
  by (auto simp: neighbor_radian_def bind_err_def split: sum.splits option.splits if_splits
       dest: angle_x_axis_range)

lemma neighbors_loop_keys:
  "neighbors_loop nw cur u vs acc = Inr nb \<Longrightarrow> distinct (map fst acc) \<Longrightarrow>
   (\<forall>r \<in> fst ` set acc. 0 \<le> r \<and> r < 2 * pi) \<Longrightarrow>
   distinct (map fst nb) \<and> (\<forall>r \<in> fst ` set nb. 0 \<le> r \<and> r < 2 * pi)"
proof (induction vs arbitrary: acc)
  case Nil
  then show ?case by simp
next
  case (Cons v vs)
  then obtain r where r: "neighbor_radian nw cur u v = Inr r"
      "neighbors_loop nw cur u vs (AList.update r v acc) = Inr nb"
    by (auto simp: bind_err_def split: sum.splits)
  have "distinct (map fst (AList.update r v acc))"
    using Cons.prems(2) by (rule distinct_update)
  moreover have "\<forall>x \<in> fst ` set (AList.update r v acc). 0 \<le> x \<and> x < 2 * pi"
    using Cons.prems(3) neighbor_radian_range[OF r(1)] by (auto simp: dom_update)
  ultimately show ?case using Cons.IH[OF r(2)] by blast
qed

lemma corner_loop_from_start:
  assumes nb: "neighbors_loop nw cur u (net_neighbors nw u) [] = Inr nb"
    and old: "\<forall>c \<in> set (all_corners (output_trench_corners st)).
                 node_distance (xy c) cur \<noteq> distance_from_center_of_road"
    and ne: "nb \<noteq> []"
  shows "\<exists>r1 lr sl. corner_loop u cur nb (st, locals_init) (sort (map fst nb)) = Inr sl
           \<and> r1 = hd (sort (map fst nb)) \<and> lr = last (sort (map fst nb)) \<and> lr < r1 + 2 * pi
           \<and> synth_inv cur (node_id st) (set (all_corners (output_trench_corners st)))
                (mset (all_crossings (output_road_crossing st))) r1 lr (length nb - 1) sl"
proof -
  let ?rs = "sort (map fst nb)"
  have dk: "distinct (map fst nb)" and rng: "\<forall>r \<in> fst ` set nb. 0 \<le> r \<and> r < 2 * pi"
    using neighbors_loop_keys[OF nb] by simp_all
  have srt: "sorted_wrt (<) ?rs" using dk by (simp add: strict_sorted_iff)
  have set_rs: "set ?rs = fst ` set nb" by simp
  have len: "length ?rs = length nb" by simp
  obtain r1 rest where rs: "?rs = r1 # rest" using ne len by (cases ?rs) auto
  have r1: "r1 \<in> fst ` set nb" using set_rs rs by (metis list.set_intros(1))
  have r1_0: "0 \<le> r1" using rng r1 by blast
  have keys: "\<forall>r \<in> set ?rs. r < r1 + 2 * pi \<and> map_of nb r \<noteq> None"
  proof
    fix r assume "r \<in> set ?rs"
    then have m: "r \<in> fst ` set nb" using set_rs by blast
    then have "r < 2 * pi" using rng by blast
    moreover have "map_of nb r \<noteq> None" using m by (simp add: map_of_eq_None_iff)
    ultimately show "r < r1 + 2 * pi \<and> map_of nb r \<noteq> None" using r1_0 by simp
  qed
  obtain v where v: "map_of nb r1 = Some v" using keys rs by auto
  let ?S0 = "set (all_corners (output_trench_corners st))"
  let ?X0 = "mset (all_crossings (output_road_crossing st))"
  obtain sl1 where sl1: "corner_step u cur nb (st, locals_init) r1 = Inr sl1"
      "synth_inv cur (node_id st) ?S0 ?X0 r1 r1 0 sl1"
    using corner_step_first[OF v subset_refl refl, where u = u and cur = cur] by blast
  have srt': "sorted_wrt (<) (r1 # rest)" using srt rs by simp
  have keys': "\<forall>r \<in> set rest. r < r1 + 2 * pi \<and> map_of nb r \<noteq> None"
    using keys rs by simp
  obtain sl where sl: "corner_loop u cur nb sl1 rest = Inr sl"
      "synth_inv cur (node_id st) ?S0 ?X0 r1 (last (r1 # rest)) (0 + length rest) sl"
    using corner_loop_inv[OF old sl1(2) srt' keys'] by blast
  have "last (r1 # rest) \<in> set ?rs" using rs by (metis last_in_set list.distinct(1))
  then have lr: "last (r1 # rest) < r1 + 2 * pi" using keys by blast
  have lenr: "length rest = length nb - 1" using len rs by simp
  have "corner_loop u cur nb (st, locals_init) ?rs = Inr sl"
    unfolding rs using sl1(1) sl(1) by (simp add: bind_err_def)
  then show ?thesis using lr sl(2) lenr rs by auto
qed

lemma length_cycle_edges: "length (cycle_edges k n) = n - 1"
  by (simp add: cycle_edges_def)

text \<open>
  C3, amended. Let \<open>n\<close> be the number of distinct angles under which the neighbours of
  an intersection are seen (the size of the dictionary \<^verbatim>\<open>neighbors\<close>, built without an
  exception), and let no corner stored so far lie at the distance
  \<^verbatim>\<open>distance_from_center_of_road\<close> from the intersection. For \<open>n\<close> of 2 or more the
  synthesis of the intersection returns, exactly \<open>n\<close> corners are new, each of them at
  that distance from the intersection, they carry the \<open>n\<close> identifiers that follow
  \<^verbatim>\<open>node_id\<close>, and exactly \<open>n\<close> crossing edges are appended: the edges between consecutive
  identifiers and the edge from the last identifier to the first one. For \<open>n = 1\<close>
  exactly two corners are new, on the circle at angles \<open>pi\<close> apart, with the next two
  identifiers, and the one crossing edge between them is appended.
\<close>

theorem corners_of_intersection:
  assumes nb: "neighbors_loop nw cur u (net_neighbors nw u) [] = Inr nb"
    and n: "length nb = n"
    and old: "\<forall>c \<in> set (all_corners (output_trench_corners st)).
                 node_distance (xy c) cur \<noteq> distance_from_center_of_road"
  shows "(2 \<le> n \<longrightarrow>
           (\<exists>st'. process_intersection nw st (u, cur) = Inr st'
              \<and> node_id st' = node_id st + int n
              \<and> card (set (all_corners (output_trench_corners st'))
                        - set (all_corners (output_trench_corners st))) = n
              \<and> (\<forall>c \<in> set (all_corners (output_trench_corners st'))
                          - set (all_corners (output_trench_corners st)).
                    node_distance (xy c) cur = distance_from_center_of_road)
              \<and> (\<forall>j. 1 \<le> j \<and> j \<le> n \<longrightarrow>
                    (\<exists>c \<in> set (all_corners (output_trench_corners st'))
                            - set (all_corners (output_trench_corners st)).
                       node_for_adding c = Some (node_id st + int j)))
              \<and> mset (all_crossings (output_road_crossing st'))
                  = mset (all_crossings (output_road_crossing st))
                    + mset (cycle_edges (node_id st) n)
                    + {#(node_id st + int n, node_id st + 1)#}
              \<and> length (all_crossings (output_road_crossing st'))
                  = length (all_crossings (output_road_crossing st)) + n))
       \<and> (n = 1 \<longrightarrow>
           (\<exists>st' c1 c2 r. process_intersection nw st (u, cur) = Inr st'
              \<and> node_id st' = node_id st + 2
              \<and> set (all_corners (output_trench_corners st'))
                   - set (all_corners (output_trench_corners st)) = {c1, c2}
              \<and> c1 \<noteq> c2
              \<and> xy c1 = point_on_circle cur distance_from_center_of_road (r + pi / 2)
              \<and> xy c2 = point_on_circle cur distance_from_center_of_road (r + pi / 2 + pi)
              \<and> node_for_adding c1 = Some (node_id st + 1)
              \<and> node_for_adding c2 = Some (node_id st + 2)
              \<and> mset (all_crossings (output_road_crossing st'))
                  = mset (all_crossings (output_road_crossing st))
                    + {#(node_id st + 1, node_id st + 2)#}))"
proof (intro conjI impI)
  let ?S0 = "set (all_corners (output_trench_corners st))"
  let ?X0 = "mset (all_crossings (output_road_crossing st))"
  let ?k = "node_id st"
  have len: "length (sort (map fst nb)) = n" using n by simp
  {
    assume n2: "2 \<le> n"
    then have ne: "nb \<noteq> []" using n by auto
    obtain r1 lr sl where sl: "corner_loop u cur nb (st, locals_init) (sort (map fst nb)) = Inr sl"
        "lr < r1 + 2 * pi" "synth_inv cur ?k ?S0 ?X0 r1 lr (n - 1) sl"
      using corner_loop_from_start[OF nb old ne] n by blast
    have m: "0 < n - 1" and sm: "Suc (n - 1) = n" using n2 by simp_all
    have r: "process_intersection nw st (u, cur) = wrap_around u cur sl"
      using nb sl(1) len n2 by (simp add: process_intersection_def bind_err_def Let_def)
    obtain st' where st': "wrap_around u cur sl = Inr st'"
        "node_id st' = ?k + int n"
        "mset (all_crossings (output_road_crossing st'))
           = ?X0 + mset (cycle_edges ?k n) + {#(?k + int n, ?k + 1)#}"
        "set (all_corners (output_trench_corners st'))
           \<subseteq> ?S0 \<union> {c. node_distance (xy c) cur = distance_from_center_of_road
                        \<and> (\<exists>j. 1 \<le> j \<and> j \<le> n \<and> node_for_adding c = Some (?k + int j))}"
        "\<forall>j. 1 \<le> j \<and> j \<le> n \<longrightarrow>
             (\<exists>c \<in> set (all_corners (output_trench_corners st')).
                node_distance (xy c) cur = distance_from_center_of_road
                \<and> node_for_adding c = Some (?k + int j))"
        "card (set (all_corners (output_trench_corners st')) - ?S0) \<le> n"
      using wrap_around_inv[OF sl(3) old m sl(2), of u] unfolding sm by blast
    let ?T = "set (all_corners (output_trench_corners st')) - ?S0"
    have D: "\<forall>c \<in> ?T. node_distance (xy c) cur = distance_from_center_of_road"
      using st'(4) by auto
    have W: "\<forall>j. 1 \<le> j \<and> j \<le> n \<longrightarrow> (\<exists>c \<in> ?T. node_for_adding c = Some (?k + int j))"
      using st'(5) old by blast
    have "n \<le> card ?T" using card_by_ids[OF _ W] by simp
    then have C: "card ?T = n" using st'(6) by simp
    have "size (mset (all_crossings (output_road_crossing st'))) = size ?X0 + n"
      unfolding st'(3) using n2 by (simp add: length_cycle_edges)
    then have L: "length (all_crossings (output_road_crossing st'))
                    = length (all_crossings (output_road_crossing st)) + n" by simp
    show "\<exists>st'. process_intersection nw st (u, cur) = Inr st'
              \<and> node_id st' = ?k + int n
              \<and> card (set (all_corners (output_trench_corners st')) - ?S0) = n
              \<and> (\<forall>c \<in> set (all_corners (output_trench_corners st')) - ?S0.
                    node_distance (xy c) cur = distance_from_center_of_road)
              \<and> (\<forall>j. 1 \<le> j \<and> j \<le> n \<longrightarrow>
                    (\<exists>c \<in> set (all_corners (output_trench_corners st')) - ?S0.
                       node_for_adding c = Some (?k + int j)))
              \<and> mset (all_crossings (output_road_crossing st'))
                  = ?X0 + mset (cycle_edges ?k n) + {#(?k + int n, ?k + 1)#}
              \<and> length (all_crossings (output_road_crossing st'))
                  = length (all_crossings (output_road_crossing st)) + n"
    proof (intro exI[of _ st'] conjI)
      show "process_intersection nw st (u, cur) = Inr st'" unfolding r by (rule st'(1))
    qed (fact st'(2) C D W st'(3) L)+
  }
  {
    assume n1: "n = 1"
    then have ne: "nb \<noteq> []" using n by auto
    obtain r1 lr sl where sl: "corner_loop u cur nb (st, locals_init) (sort (map fst nb)) = Inr sl"
        "r1 = hd (sort (map fst nb))" "lr = last (sort (map fst nb))"
        "synth_inv cur ?k ?S0 ?X0 r1 lr (n - 1) sl"
      using corner_loop_from_start[OF nb old ne] n by blast
    obtain x where "sort (map fst nb) = [x]" using len n1
      by (cases "sort (map fst nb)") auto
    then have "lr = r1" using sl(2,3) by simp
    then have inv: "synth_inv cur ?k ?S0 ?X0 r1 r1 0 sl" using sl(4) n1 by simp
    have r: "process_intersection nw st (u, cur) = dead_end u cur sl"
      using nb sl(1) len n1 by (simp add: process_intersection_def bind_err_def Let_def)
    obtain st' c1 c2 where st': "dead_end u cur sl = Inr st'"
        "node_id st' = ?k + 2"
        "mset (all_crossings (output_road_crossing st')) = ?X0 + {#(?k + 1, ?k + 2)#}"
        "set (all_corners (output_trench_corners st')) \<subseteq> ?S0 \<union> {c1, c2}"
        "c1 \<in> set (all_corners (output_trench_corners st'))"
        "c2 \<in> set (all_corners (output_trench_corners st'))"
        "xy c1 = point_on_circle cur distance_from_center_of_road (r1 + pi / 2)"
        "xy c2 = point_on_circle cur distance_from_center_of_road (r1 + pi / 2 + pi)"
        "node_for_adding c1 = Some (?k + 1)" "node_for_adding c2 = Some (?k + 2)"
      using dead_end_inv[OF inv old, of u] by blast
    have d0: "0 \<le> distance_from_center_of_road" using d_pos by simp
    have "node_distance (xy c1) cur = distance_from_center_of_road"
        "node_distance (xy c2) cur = distance_from_center_of_road"
      unfolding st'(7,8) by (rule point_on_circle_distance[OF d0])+
    then have "c1 \<notin> ?S0" "c2 \<notin> ?S0" using old by blast+
    then have T: "set (all_corners (output_trench_corners st')) - ?S0 = {c1, c2}"
      using st'(4,5,6) by blast
    have ne12: "c1 \<noteq> c2" using st'(9,10) by auto
    show "\<exists>st' c1 c2 r. process_intersection nw st (u, cur) = Inr st'
              \<and> node_id st' = ?k + 2
              \<and> set (all_corners (output_trench_corners st')) - ?S0 = {c1, c2}
              \<and> c1 \<noteq> c2
              \<and> xy c1 = point_on_circle cur distance_from_center_of_road (r + pi / 2)
              \<and> xy c2 = point_on_circle cur distance_from_center_of_road (r + pi / 2 + pi)
              \<and> node_for_adding c1 = Some (?k + 1)
              \<and> node_for_adding c2 = Some (?k + 2)
              \<and> mset (all_crossings (output_road_crossing st'))
                  = ?X0 + {#(?k + 1, ?k + 2)#}"
    proof (rule exI[of _ st'], rule exI[of _ c1], rule exI[of _ c2], rule exI[of _ r1],
        intro conjI)
      show "process_intersection nw st (u, cur) = Inr st'" unfolding r by (rule st'(1))
    qed (fact st'(2) T ne12 st'(7) st'(8) st'(9) st'(10) st'(3))+
  }
qed

theorem corners_of_intersection_witness:
  "neighbors_loop net_same_dir (0, 0) 1 (net_neighbors net_same_dir 1) []
     = Inr [(pi / 4, 3), (3 * pi / 4, 4)]
   \<and> all_corners (output_trench_corners synth_init) = []
   \<and> (\<exists>st'. process_intersection net_same_dir synth_init (1, (0, 0)) = Inr st'
          \<and> node_id st' = 400000002
          \<and> card (set (all_corners (output_trench_corners st'))) = 2
          \<and> mset (all_crossings (output_road_crossing st'))
              = {#(400000001, 400000002), (400000002, 400000001)#})"
proof -
  have e: "all_corners (output_trench_corners synth_init) = []"
    by (simp add: all_corners_def synth_init_def)
  have x: "all_crossings (output_road_crossing synth_init) = []"
    by (simp add: all_crossings_def synth_init_def)
  have k: "node_id synth_init = 400000000" by (simp add: synth_init_def)
  have c: "cycle_edges 400000000 2 = [(400000001, 400000002)]"
    by (simp add: cycle_edges_def upt_rec)
  show ?thesis
    using corners_of_intersection[OF same_dir_nb(1), of 2 synth_init] same_dir_nb(1)
    unfolding e x k c by (auto simp add: add_mset_commute)
qed

end
